theory Spec2Isabelle
  imports Main "HOL-Library.Sublist" "HOL-Library.Log_Nat"
begin

section \<open>Python strings\<close>

text \<open>
  A Python \<open>str\<close> is a sequence of code points. It is modelled by \<open>string\<close>, each
  \<open>char\<close> standing for one code point below 256 (the Latin-1 range), so that
  \<open>length\<close> is Python's \<open>len\<close>. The functions below are the \<open>str\<close> methods that
  \<open>app.py\<close> calls, restricted to that range.
\<close>

definition is_space :: "char \<Rightarrow> bool" where
  \<comment> \<open>\<open>str.isspace\<close> on one code point: U+0009..U+000D, U+001C..U+0020, U+0085, U+00A0.\<close>
  "is_space c =
     (let n = (of_char c :: nat)
      in (9 \<le> n \<and> n \<le> 13) \<or> (28 \<le> n \<and> n \<le> 32) \<or> n = 133 \<or> n = 160)"

definition lower_char :: "char \<Rightarrow> char" where
  \<comment> \<open>\<open>str.lower\<close> on one code point: A..Z, and U+00C0..U+00DE without U+00D7.\<close>
  "lower_char c =
     (let n = (of_char c :: nat)
      in if (65 \<le> n \<and> n \<le> 90) \<or> (192 \<le> n \<and> n \<le> 222 \<and> n \<noteq> 215)
         then char_of (n + 32) else c)"

definition py_lower :: "string \<Rightarrow> string" where
  "py_lower s = map lower_char s"

definition strip_chars :: "string \<Rightarrow> string \<Rightarrow> string" where
  \<comment> \<open>\<open>s.strip(chars)\<close>: every leading and every trailing character that is in \<open>chars\<close> goes.\<close>
  "strip_chars chars s =
     rev (dropWhile (\<lambda>c. c \<in> set chars) (rev (dropWhile (\<lambda>c. c \<in> set chars) s)))"

definition strip :: "string \<Rightarrow> string" where
  \<comment> \<open>\<open>s.strip()\<close>: leading and trailing whitespace goes.\<close>
  "strip s = rev (dropWhile is_space (rev (dropWhile is_space s)))"

fun py_in :: "string \<Rightarrow> string \<Rightarrow> bool" where
  \<comment> \<open>\<open>sub in s\<close> on strings.\<close>
  "py_in sub [] = (sub = [])"
| "py_in sub (c # cs) = (prefix sub (c # cs) \<or> py_in sub cs)"

fun py_split :: "string \<Rightarrow> string \<Rightarrow> string list" where
  \<comment> \<open>\<open>s.split(sep)\<close> for a non-empty \<open>sep\<close>: cut at each occurrence, left to right.\<close>
  "py_split sep [] = [[]]"
| "py_split sep (c # cs) =
     (if sep \<noteq> [] \<and> prefix sep (c # cs) then [] # py_split sep (drop (length sep) (c # cs))
      else (case py_split sep cs of [] \<Rightarrow> [[c]] | w # ws \<Rightarrow> (c # w) # ws))"

fun split1 :: "string \<Rightarrow> string \<Rightarrow> string list" where
  \<comment> \<open>\<open>s.split(sep, 1)\<close> for a non-empty \<open>sep\<close>: cut at the first occurrence only.\<close>
  "split1 sep [] = [[]]"
| "split1 sep (c # cs) =
     (if sep \<noteq> [] \<and> prefix sep (c # cs) then [[], drop (length sep) (c # cs)]
      else (case split1 sep cs of [] \<Rightarrow> [[c]] | w # ws \<Rightarrow> (c # w) # ws))"

definition endswith :: "string \<Rightarrow> string \<Rightarrow> bool" where
  "endswith s suf = suffix suf s"

section \<open>Python floats\<close>

text \<open>
  A Python \<open>float\<close> is an IEEE 754 binary64 number. The finite ones are rationals, and
  every operation of \<open>app.py\<close> on floats is the exact operation followed by rounding
  to the nearest representable number, ties to the even significand (\<open>fl\<close>). No
  operation here produces a NaN, and zero is not signed.
\<close>

datatype pyfloat = Finite rat | PosInf | NegInf

definition pow2 :: "int \<Rightarrow> rat" where
  "pow2 k = (if 0 \<le> k then 2 ^ nat k else 1 / 2 ^ nat (- k))"

definition round_half_even :: "rat \<Rightarrow> int" where
  "round_half_even x =
     (let f = \<lfloor>x\<rfloor>; r = x - of_int f
      in if r < 1 / 2 then f else if 1 / 2 < r then f + 1 else if even f then f else f + 1)"

definition ilog2 :: "rat \<Rightarrow> int" where
  \<comment> \<open>For \<open>0 < x\<close>: the exponent \<open>e\<close> with \<open>2 ^ e \<le> x < 2 ^ (e + 1)\<close>.\<close>
  "ilog2 x =
     (let k = int (floorlog 2 (nat (fst (quotient_of x)))) -
              int (floorlog 2 (nat (snd (quotient_of x))))
      in if pow2 k \<le> x then k else k - 1)"

definition fl :: "rat \<Rightarrow> pyfloat" where
  \<comment> \<open>The nearest binary64 number: 53 significant bits, least exponent -1022 (below it
      the spacing stays \<open>2 ^ -1074\<close>), infinite from \<open>2 ^ 1024\<close> on.\<close>
  "fl x =
     (if x = 0 then Finite 0
      else let a = \<bar>x\<bar>;
               q = max (ilog2 a) (- 1022) - 52;
               y = of_int (round_half_even (a / pow2 q)) * pow2 q
           in if 2 ^ 1024 \<le> y then (if x < 0 then NegInf else PosInf)
              else Finite (if x < 0 then - y else y))"

datatype py_exception =
    ZeroDivisionError
  | OverflowError
  | KeyError string
  | IndexError string
  | TypeError string
  | AttributeError string

fun exc_str :: "py_exception \<Rightarrow> string" where
  \<comment> \<open>\<open>str(e)\<close>. \<open>KeyError\<close> carries the \<open>repr\<close> of the key, the next three carry the
      interpreter's message (as CPython 3.11 words it).\<close>
  "exc_str ZeroDivisionError = ''division by zero''"
| "exc_str OverflowError = ''integer division result too large for a float''"
| "exc_str (KeyError k) = k"
| "exc_str (IndexError m) = m"
| "exc_str (TypeError m) = m"
| "exc_str (AttributeError m) = m"

definition truediv :: "int \<Rightarrow> int \<Rightarrow> py_exception + pyfloat" where
  \<comment> \<open>\<open>a / b\<close> on two \<open>int\<close>s: the correctly rounded quotient.\<close>
  "truediv a b =
     (if b = 0 then Inl ZeroDivisionError
      else case fl (of_int a / of_int b) of
             Finite r \<Rightarrow> Inr (Finite r)
           | _ \<Rightarrow> Inl OverflowError)"

fun times100 :: "pyfloat \<Rightarrow> pyfloat" where
  \<comment> \<open>\<open>x * 100\<close> on a \<open>float\<close>.\<close>
  "times100 (Finite r) = fl (r * 100)"
| "times100 PosInf = PosInf"
| "times100 NegInf = NegInf"

fun float_less :: "pyfloat \<Rightarrow> rat \<Rightarrow> bool" where
  \<comment> \<open>\<open>x < n\<close> for a \<open>float\<close> and an \<open>int\<close> literal.\<close>
  "float_less (Finite r) b = (r < b)"
| "float_less PosInf b = False"
| "float_less NegInf b = True"

fun py_round1 :: "pyfloat \<Rightarrow> pyfloat" where
  \<comment> \<open>\<open>round(x, 1)\<close>: the float nearest to the tenth nearest to \<open>x\<close>, ties to the even
      tenth; an infinity is returned as it is.\<close>
  "py_round1 (Finite r) = fl (of_int (round_half_even (r * 10)) / 10)"
| "py_round1 PosInf = PosInf"
| "py_round1 NegInf = NegInf"

definition progress_percentage :: "int \<Rightarrow> int \<Rightarrow> py_exception + pyfloat" where
  \<comment> \<open>\<open>(days_completed / total_target) * 100\<close>, written out at lines 19, 190 and 213.\<close>
  "progress_percentage days_completed total_target =
     (case truediv days_completed total_target of
        Inl e \<Rightarrow> Inl e
      | Inr q \<Rightarrow> Inr (times100 q))"

section \<open>Prompt Builder\<close>

text \<open>
  The prompt is a fixed template with six interpolated values. The record holds the
  values; the template text around them is not modelled.
\<close>

record prompt =
  p_days_completed :: int
  p_total_target :: int
  p_days_left :: int
  p_progress_percentage :: pyfloat
  p_phase :: string
  p_tone :: string

definition phase_and_tone :: "pyfloat \<Rightarrow> string \<times> string" where
  \<comment> \<open>The \<open>if\<close>/\<open>elif\<close> chain of lines 22 to 33.\<close>
  "phase_and_tone progress =
     (if float_less progress 25 then (''beginning'', ''energetic and encouraging'')
      else if float_less progress 50 then (''early progress'', ''motivating and momentum-building'')
      else if float_less progress 75 then (''middle journey'', ''resilient and persistent'')
      else (''final sprint'', ''determined and finish-strong''))"

definition generate_motivational_prompt :: "int \<Rightarrow> int \<Rightarrow> py_exception + prompt" where
  "generate_motivational_prompt days_left total_target =
     (let days_completed = total_target - days_left
      in case progress_percentage days_completed total_target of
           Inl e \<Rightarrow> Inl e
         | Inr progress \<Rightarrow>
             Inr \<lparr> p_days_completed = days_completed,
                   p_total_target = total_target,
                   p_days_left = days_left,
                   p_progress_percentage = progress,
                   p_phase = fst (phase_and_tone progress),
                   p_tone = snd (phase_and_tone progress) \<rparr>)"

section \<open>Completion Client\<close>

subsection \<open>The parsed response body\<close>

datatype json =
    JNull
  | JBool bool
  | JInt int
  | JFloat rat
  | JStr string
  | JArr "json list"
  | JObj "(string \<times> json) list"

definition squote :: char where "squote = CHR 0x27"
definition dquote :: char where "dquote = CHR 0x22"
definition newline :: char where "newline = CHR 0x0A"

fun type_name :: "json \<Rightarrow> string" where
  "type_name JNull = ''NoneType''"
| "type_name (JBool b) = ''bool''"
| "type_name (JInt i) = ''int''"
| "type_name (JFloat r) = ''float''"
| "type_name (JStr s) = ''str''"
| "type_name (JArr xs) = ''list''"
| "type_name (JObj kvs) = ''dict''"

definition not_subscriptable :: "json \<Rightarrow> py_exception" where
  "not_subscriptable v = TypeError ([squote] @ type_name v @ [squote] @ '' object is not subscriptable'')"

definition no_attribute :: "json \<Rightarrow> string \<Rightarrow> py_exception" where
  "no_attribute v name =
     AttributeError ([squote] @ type_name v @ [squote] @ '' object has no attribute '' @
                     [squote] @ name @ [squote])"

fun getitem_str :: "json \<Rightarrow> string \<Rightarrow> py_exception + json" where
  \<comment> \<open>\<open>v[key]\<close> for a \<open>str\<close> key (here \<open>'choices'\<close>, \<open>'message'\<close>, \<open>'reasoning'\<close>).\<close>
  "getitem_str (JObj kvs) key =
     (case map_of kvs key of
        None \<Rightarrow> Inl (KeyError ([squote] @ key @ [squote]))
      | Some v \<Rightarrow> Inr v)"
| "getitem_str (JArr xs) key = Inl (TypeError ''list indices must be integers or slices, not str'')"
| "getitem_str (JStr s) key =
     Inl (TypeError (''string indices must be integers, not '' @ [squote] @ ''str'' @ [squote]))"
| "getitem_str v key = Inl (not_subscriptable v)"

fun getitem_0 :: "json \<Rightarrow> py_exception + json" where
  \<comment> \<open>\<open>v[0]\<close>. The keys of a parsed JSON object are strings, so \<open>0\<close> is never one.\<close>
  "getitem_0 (JObj kvs) = Inl (KeyError ''0'')"
| "getitem_0 (JArr []) = Inl (IndexError ''list index out of range'')"
| "getitem_0 (JArr (x # xs)) = Inr x"
| "getitem_0 (JStr []) = Inl (IndexError ''string index out of range'')"
| "getitem_0 (JStr (c # cs)) = Inr (JStr [c])"
| "getitem_0 v = Inl (not_subscriptable v)"

fun dict_get :: "json \<Rightarrow> string \<Rightarrow> json \<Rightarrow> py_exception + json" where
  \<comment> \<open>\<open>v.get(key, default)\<close>.\<close>
  "dict_get (JObj kvs) key dflt = (case map_of kvs key of None \<Rightarrow> Inr dflt | Some v \<Rightarrow> Inr v)"
| "dict_get v key dflt = Inl (no_attribute v ''get'')"

fun str_strip :: "json \<Rightarrow> py_exception + string" where
  \<comment> \<open>\<open>v.strip()\<close>.\<close>
  "str_strip (JStr s) = Inr (strip s)"
| "str_strip v = Inl (no_attribute v ''strip'')"

fun has_key :: "json \<Rightarrow> string \<Rightarrow> bool" where
  \<comment> \<open>\<open>key in v\<close>, asked of the message once \<open>get\<close> has shown it to be a \<open>dict\<close>.\<close>
  "has_key (JObj kvs) key = (map_of kvs key \<noteq> None)"
| "has_key v key = False"

definition and_then :: "'e + 'a \<Rightarrow> ('a \<Rightarrow> 'e + 'b) \<Rightarrow> 'e + 'b" where
  \<comment> \<open>Sequencing: the first exception ends the \<open>try\<close> block.\<close>
  "and_then r f = (case r of Inl e \<Rightarrow> Inl e | Inr x \<Rightarrow> f x)"

subsection \<open>Response normalization (lines 100 to 131)\<close>

definition markers :: "string list" where
  "markers = [''quote:'', ''response:'', ''answer:'']"

definition has_marker :: "string \<Rightarrow> bool" where
  \<comment> \<open>Line 112: \<open>any(keyword in line.lower() for keyword in [...])\<close>.\<close>
  "has_marker line = list_ex (\<lambda>keyword. py_in keyword (py_lower line)) markers"

fun scan_lines :: "string list \<Rightarrow> string" where
  \<comment> \<open>The \<open>for\<close> loop of lines 111 to 114, entered with \<open>quote == ''\<close>: the first line
      that holds a marker sets \<open>quote\<close> and ends the loop.\<close>
  "scan_lines [] = []"
| "scan_lines (line # rest) =
     (if has_marker line then strip (last (split1 '':'' line)) else scan_lines rest)"

definition last_sentence :: "string \<Rightarrow> string" where
  \<comment> \<open>Lines 118 to 121.\<close>
  "last_sentence reasoning =
     (let quote = strip (last (py_split ''. '' reasoning))
      in if endswith quote ''.'' then butlast quote else quote)"

definition quote_from_reasoning :: "string \<Rightarrow> string" where
  \<comment> \<open>Lines 108 to 121, entered with \<open>quote == ''\<close>; the result is the new \<open>quote\<close>.\<close>
  "quote_from_reasoning reasoning =
     (if py_in ''quote'' (py_lower reasoning)
      then let quote = scan_lines (py_split [newline] reasoning)
           in if quote = [] then last_sentence reasoning else quote
      else [])"

fun reasoning_quote :: "json \<Rightarrow> py_exception + string" where
  \<comment> \<open>Lines 106 to 121 on the value of the \<open>reasoning\<close> field. The first thing done with
      it is \<open>reasoning.lower()\<close>, which raises on anything but a \<open>str\<close>.\<close>
  "reasoning_quote (JStr text) = Inr (quote_from_reasoning text)"
| "reasoning_quote v = Inl (no_attribute v ''lower'')"

definition post_process :: "string \<Rightarrow> string" where
  \<comment> \<open>Line 125: \<open>quote.strip('"').strip("'").strip()\<close>.\<close>
  "post_process quote = strip (strip_chars [squote] (strip_chars [dquote] quote))"

definition limit_length :: "string \<Rightarrow> string" where
  \<comment> \<open>Lines 127 and 128.\<close>
  "limit_length quote = (if 200 < length quote then take 200 quote @ ''...'' else quote)"

definition message_quote :: "json \<Rightarrow> py_exception + string" where
  \<comment> \<open>Lines 102 to 121 on the message object: the value of \<open>quote\<close> when line 124 is
      reached.\<close>
  "message_quote message =
     and_then (dict_get message ''content'' (JStr [])) (\<lambda>content.
     and_then (str_strip content) (\<lambda>quote.
       if quote = [] \<and> has_key message ''reasoning''
       then and_then (getitem_str message ''reasoning'') reasoning_quote
       else Inr quote))"

definition extract_quote :: "json \<Rightarrow> py_exception + string" where
  \<comment> \<open>Lines 101 to 121: \<open>response_data['choices'][0]['message']\<close>, then the above.\<close>
  "extract_quote response_data =
     and_then (getitem_str response_data ''choices'') (\<lambda>choices.
     and_then (getitem_0 choices) (\<lambda>choice.
     and_then (getitem_str choice ''message'') message_quote))"

definition finish_quote :: "string \<Rightarrow> string option \<times> string option" where
  \<comment> \<open>Lines 124 to 131: the pair \<open>(quote, error)\<close> that is returned.\<close>
  "finish_quote quote =
     (if quote \<noteq> [] then (Some (limit_length (post_process quote)), None)
      else (None, Some ''No quote generated in response''))"

subsection \<open>The upstream call\<close>

datatype body = JsonBody json | InvalidBody string

datatype upstream_outcome =
    Raises string
  | Responds int body

text \<open>
  \<open>Raises m\<close>: \<open>requests.post\<close> raised an exception \<open>e\<close> with \<open>str(e) = m\<close>.
  \<open>Responds status b\<close>: it returned a response with that status code, whose
  \<open>json()\<close> is \<open>j\<close> for \<open>b = JsonBody j\<close> and raises an exception with text \<open>m\<close> for
  \<open>b = InvalidBody m\<close>.
\<close>

function str_nat :: "nat \<Rightarrow> string" where
  \<comment> \<open>The decimal digits of a natural number.\<close>
  "str_nat n =
     (if n < 10 then [char_of (48 + n)]
      else str_nat (n div 10) @ [char_of (48 + n mod 10)])"
  by pat_completeness auto
termination
  by (relation "measure id") auto

definition str_int :: "int \<Rightarrow> string" where
  \<comment> \<open>\<open>str(i)\<close> for an \<open>int\<close>.\<close>
  "str_int i = (if i < 0 then ''-'' @ str_nat (nat (- i)) else str_nat (nat i))"

definition get_quote_from_llm ::
  "(prompt \<Rightarrow> upstream_outcome) \<Rightarrow> int \<Rightarrow> int \<Rightarrow> (string option \<times> string option) \<times> prompt list"
where
  \<comment> \<open>The result is the returned pair \<open>(quote, error)\<close> and the list of the prompts sent
      upstream. Every exception inside the \<open>try\<close> block ends in \<open>(None, str(e))\<close>.\<close>
  "get_quote_from_llm upstream days_left total_target =
     (case generate_motivational_prompt days_left total_target of
        Inl e \<Rightarrow> ((None, Some (exc_str e)), [])
      | Inr prompt \<Rightarrow>
          (case upstream prompt of
             Raises m \<Rightarrow> (None, Some m)
           | Responds status_code b \<Rightarrow>
               if status_code = 200
               then (case b of
                       InvalidBody m \<Rightarrow> (None, Some m)
                     | JsonBody response_data \<Rightarrow>
                         (case extract_quote response_data of
                            Inl e \<Rightarrow> (None, Some (exc_str e))
                          | Inr quote \<Rightarrow> finish_quote quote))
               else (None, Some (''API Error: '' @ str_int status_code)),
           [prompt]))"

section \<open>Request Handler\<close>

definition int_space :: "char \<Rightarrow> bool" where
  \<comment> \<open>The whitespace that \<open>int()\<close> skips around a number: U+0009..U+000D, U+0020, U+0085,
      U+00A0.\<close>
  "int_space c =
     (let n = (of_char c :: nat) in (9 \<le> n \<and> n \<le> 13) \<or> n = 32 \<or> n = 133 \<or> n = 160)"

definition is_digit :: "char \<Rightarrow> bool" where
  "is_digit c = (let n = (of_char c :: nat) in 48 \<le> n \<and> n \<le> 57)"

fun digit_run :: "string \<Rightarrow> bool" where
  \<comment> \<open>One or more digits, single underscores allowed between two digits.\<close>
  "digit_run [] = False"
| "digit_run [c] = is_digit c"
| "digit_run (c # d # cs) =
     (is_digit c \<and> (if d = CHR ''_'' then digit_run cs else digit_run (d # cs)))"

definition digits_value :: "string \<Rightarrow> int" where
  "digits_value ds = foldl (\<lambda>acc c. 10 * acc + (int (of_char c) - 48)) 0 ds"

definition py_int :: "nat \<Rightarrow> string \<Rightarrow> int option" where
  \<comment> \<open>\<open>int(s)\<close> for a \<open>str\<close>; \<open>None\<close> is \<open>ValueError\<close>. \<open>max_str_digits\<close> is the
      interpreter's limit on the number of digits (4300 by default from CPython 3.11 on,
      0 for no limit); it is only looked at above 640 digits.\<close>
  "py_int max_str_digits s =
     (let t = rev (dropWhile int_space (rev (dropWhile int_space s)));
          negative = (t \<noteq> [] \<and> hd t = CHR ''-'');
          ds = (if t \<noteq> [] \<and> (hd t = CHR ''-'' \<or> hd t = CHR ''+'') then tl t else t);
          n = length (filter is_digit ds)
      in if digit_run ds \<and> \<not> (640 < n \<and> 0 < max_str_digits \<and> max_str_digits < n)
         then Some (if negative then - digits_value (filter is_digit ds)
                    else digits_value (filter is_digit ds))
         else None)"

datatype pyval = PNone | PStr string | PInt int | PFloat pyfloat

record response =
  status_code :: int
  payload :: "(string \<times> pyval) list"

record environment =
  upstream :: "prompt \<Rightarrow> upstream_outcome"
  choice_index :: nat
  max_str_digits :: nat

text \<open>
  The environment of one request: what the completion API does with a prompt, the
  number that \<open>random.choice\<close> draws (reduced to an index of the list), and the
  interpreter's limit on the digits of an \<open>int\<close>.
\<close>

definition fallback_quotes :: "string list" where
  "fallback_quotes =
     [''Every day forward is a step closer to your vision becoming reality.'',
      ''The entrepreneur'' @ [squote] @ ''s path isn'' @ [squote] @ ''t easy, but it'' @ [squote] @
        ''s worth every challenge.'',
      ''Your startup is built one decision, one day, one breakthrough at a time.'',
      ''Progress isn'' @ [squote] @ ''t always visible, but persistence always pays off.'',
      ''Today'' @ [squote] @ ''s small wins compound into tomorrow'' @ [squote] @ ''s big victories.'']"

definition random_choice :: "nat \<Rightarrow> 'a list \<Rightarrow> 'a" where
  \<comment> \<open>\<open>random.choice(xs)\<close> on a non-empty list: the element at an index below \<open>len(xs)\<close>.\<close>
  "random_choice i xs = xs ! (i mod length xs)"

definition truthy :: "string option \<Rightarrow> bool" where
  \<comment> \<open>The truth value of a \<open>str\<close> or \<open>None\<close>, as \<open>if x\<close> and \<open>not x\<close> test it.\<close>
  "truthy x = (case x of None \<Rightarrow> False | Some s \<Rightarrow> s \<noteq> [])"

definition bad_request :: "(string \<times> pyval) list \<Rightarrow> response \<times> prompt list" where
  "bad_request kvs = (\<lparr> status_code = 400, payload = kvs \<rparr>, [])"

definition internal_error :: "py_exception \<Rightarrow> response" where
  \<comment> \<open>The outer \<open>except\<close> of lines 223 to 228.\<close>
  "internal_error e =
     \<lparr> status_code = 500,
       payload = [(''error'', PStr ''Internal server error''), (''message'', PStr (exc_str e))] \<rparr>"

definition respond ::
  "nat \<Rightarrow> int \<Rightarrow> int \<Rightarrow> string option \<times> string option \<Rightarrow> response"
where
  \<comment> \<open>Lines 187 to 221, with the pair that \<open>get_quote_from_llm\<close> returned.\<close>
  "respond i days_left total_target r =
     (let days_completed = total_target - days_left
      in case progress_percentage days_completed total_target of
           Inl e \<Rightarrow> internal_error e
         | Inr progress \<Rightarrow>
             if truthy (snd r)
             then \<lparr> status_code = 200,
                    payload = [(''quote'', PStr (random_choice i fallback_quotes)),
                               (''daysLeft'', PInt days_left),
                               (''totalTarget'', PInt total_target),
                               (''progressPercentage'', PFloat (py_round1 progress)),
                               (''warning'', PStr ''Used fallback quote due to API issues'')] \<rparr>
             else \<lparr> status_code = 200,
                    payload = [(''quote'', (case fst r of None \<Rightarrow> PNone | Some q \<Rightarrow> PStr q)),
                               (''daysLeft'', PInt days_left),
                               (''totalTarget'', PInt total_target),
                               (''daysCompleted'', PInt days_completed),
                               (''progressPercentage'', PFloat (py_round1 progress))] \<rparr>)"

definition get_motivational_quote ::
  "environment \<Rightarrow> (string \<times> string) list \<Rightarrow> response \<times> prompt list"
where
  \<comment> \<open>The handler of \<open>GET /quote\<close> on the query parameters of the request: the response
      and the prompts sent upstream while it was made.\<close>
  "get_motivational_quote env args =
     (let days_left = map_of args ''daysLeft''; total_target = map_of args ''totalTarget''
      in if \<not> truthy days_left \<or> \<not> truthy total_target
         then bad_request
                [(''error'', PStr ''Both daysLeft and totalTarget parameters are required''),
                 (''usage'', PStr ''/quote?daysLeft=<number>&totalTarget=<number>'')]
         else case (py_int (max_str_digits env) (the days_left),
                    py_int (max_str_digits env) (the total_target)) of
                (Some d, Some t) \<Rightarrow>
                  if d < 0 \<or> t \<le> 0
                  then bad_request
                         [(''error'',
                           PStr ''daysLeft cannot be negative and totalTarget must be positive'')]
                  else if t < d
                  then bad_request
                         [(''error'', PStr ''daysLeft cannot be greater than totalTarget'')]
                  else (let (r, calls) = get_quote_from_llm (upstream env) d t
                        in (respond (choice_index env) d t r, calls))
              | _ \<Rightarrow>
                  bad_request [(''error'', PStr ''daysLeft and totalTarget must be valid numbers'')])"

subsection \<open>Example requests\<close>

definition env_of :: "upstream_outcome \<Rightarrow> environment" where
  \<comment> \<open>An environment in which the completion API answers every prompt in the given way.\<close>
  "env_of outcome = \<lparr> upstream = (\<lambda>prompt. outcome), choice_index = 0, max_str_digits = 4300 \<rparr>"

definition query :: "string \<Rightarrow> string \<Rightarrow> (string \<times> string) list" where
  \<comment> \<open>The query parameters of \<open>GET /quote?daysLeft=a&totalTarget=b\<close>.\<close>
  "query a b = [(''daysLeft'', a), (''totalTarget'', b)]"

definition completion :: "string \<Rightarrow> upstream_outcome" where
  \<comment> \<open>A 200 response whose first choice has the given content.\<close>
  "completion content =
     Responds 200 (JsonBody (JObj [(''choices'',
       JArr [JObj [(''message'', JObj [(''role'', JStr ''assistant''),
                                       (''content'', JStr content)])]])]))"

section \<open>The specification's wording\<close>

text \<open>
  Two definitions that follow the words of the specification instead of the code, to
  state what it says about the extraction and the post-processing.
\<close>

definition after_first_colon :: "string \<Rightarrow> string" where
  \<comment> \<open>"The substring after the first colon" of a line.\<close>
  "after_first_colon line = tl (dropWhile (\<lambda>c. c \<noteq> CHR '':'') line)"

definition strip_one_pair :: "char \<Rightarrow> string \<Rightarrow> string" where
  \<comment> \<open>"Strip one leading/trailing pair if present" of the character \<open>c\<close>.\<close>
  "strip_one_pair c s =
     (if 2 \<le> length s \<and> hd s = c \<and> last s = c then butlast (tl s) else s)"

definition spec_post_process :: "string \<Rightarrow> string" where
  \<comment> \<open>Step 5 of the specification: one pair of double quotes, then one pair of single
      quotes, then surrounding whitespace.\<close>
  "spec_post_process quote = strip (strip_one_pair squote (strip_one_pair dquote quote))"

definition spec_progress_percentage :: "int \<Rightarrow> int \<Rightarrow> rat" where
  \<comment> \<open>"\<open>days_completed = total_target - days_left\<close>,
      \<open>progress_percentage = 100 * days_completed / total_target\<close>", as exact numbers.\<close>
  "spec_progress_percentage days_left total_target =
     100 * of_int (total_target - days_left) / of_int total_target"

definition round_one_decimal :: "rat \<Rightarrow> rat" where
  \<comment> \<open>"Rounded to one decimal place": the nearest tenth, the even one at a midpoint.\<close>
  "round_one_decimal x = of_int (round_half_even (x * 10)) / 10"

section \<open>Properties\<close>

subsection \<open>Rounding to the nearest float\<close>

lemma pow2_powi: "pow2 k = 2 powi k"
  by (simp add: pow2_def power_int_def inverse_eq_divide power_one_over)

lemma pow2_pos: "0 < pow2 k"
  by (simp add: pow2_powi)

lemma pow2_add: "pow2 (a + b) = pow2 a * pow2 b"
  by (simp add: pow2_powi power_int_add)

lemma pow2_mono: "a \<le> b \<Longrightarrow> pow2 a \<le> pow2 b"
  by (simp add: pow2_powi power_int_increasing)

lemma pow2_nat: "pow2 (int n) = 2 ^ n"
  by (simp add: pow2_def)

lemma pow2_less_cancel: "pow2 a < pow2 b \<Longrightarrow> a < b"
  using pow2_mono [of b a] by (cases "a < b") auto

lemma round_half_even_error: "\<bar>of_int (round_half_even z) - z\<bar> \<le> 1 / 2"
  unfolding round_half_even_def Let_def
  by (auto simp: abs_if; linarith)

lemma round_half_even_le: "z \<le> of_int M \<Longrightarrow> round_half_even z \<le> M"
  unfolding round_half_even_def Let_def
  by (auto; linarith)

lemma round_half_even_nonneg: "0 \<le> z \<Longrightarrow> 0 \<le> round_half_even z"
  unfolding round_half_even_def Let_def
  by (auto; linarith)

lemma ilog2_lower:
  assumes "0 < x"
  shows "pow2 (ilog2 x) \<le> x"
proof -
  obtain n d where q: "quotient_of x = (n, d)" by (cases "quotient_of x")
  have d: "0 < d" using quotient_of_denom_pos [OF q] .
  have x: "x = of_int n / of_int d" using quotient_of_div [OF q] .
  have n: "0 < n" using assms d unfolding x by (simp add: zero_less_divide_iff)
  define k where "k = int (floorlog 2 (nat n)) - int (floorlog 2 (nat d))"
  have il: "ilog2 x = (if pow2 k \<le> x then k else k - 1)"
    by (simp add: ilog2_def q k_def Let_def)
  show ?thesis
  proof (cases "pow2 k \<le> x")
    case True
    then show ?thesis by (simp add: il)
  next
    case False
    have ln: "2 ^ (floorlog 2 (nat n) - 1) \<le> nat n"
      using floorlog_bounds [of "nat n" 2] n by simp
    have ld: "nat d < 2 ^ floorlog 2 (nat d)"
      using floorlog_bounds [of "nat d" 2] d by simp
    have lnpos: "0 < floorlog 2 (nat n)"
      using n by (simp add: floorlog_eq_zero_iff zero_less_iff_neq_zero)
    have n': "(2::rat) ^ (floorlog 2 (nat n) - 1) \<le> of_int n"
    proof -
      have "of_nat (2 ^ (floorlog 2 (nat n) - 1)) \<le> (of_nat (nat n) :: rat)"
        using ln of_nat_le_iff by blast
      then show ?thesis using n by simp
    qed
    have d': "of_int d \<le> (2::rat) ^ floorlog 2 (nat d)"
    proof -
      have "(of_nat (nat d) :: rat) \<le> of_nat (2 ^ floorlog 2 (nat d))"
        using ld of_nat_le_iff less_imp_le by blast
      then show ?thesis using d by simp
    qed
    have k1: "k - 1 = int (floorlog 2 (nat n) - 1) - int (floorlog 2 (nat d))"
      using lnpos by (simp add: k_def)
    have "pow2 (k - 1) = pow2 (int (floorlog 2 (nat n) - 1)) / pow2 (int (floorlog 2 (nat d)))"
      unfolding k1 by (simp add: pow2_powi power_int_diff)
    also have "\<dots> = 2 ^ (floorlog 2 (nat n) - 1) / 2 ^ floorlog 2 (nat d)"
      by (simp only: pow2_nat)
    also have "\<dots> \<le> of_int n / of_int d"
      using n' d' d n by (intro frac_le) auto
    finally have "pow2 (k - 1) \<le> x" by (simp add: x)
    then show ?thesis using False by (simp add: il)
  qed
qed

lemma ilog2_less:
  assumes "0 < x" "x < pow2 j"
  shows "ilog2 x < j"
  using ilog2_lower [OF assms(1)] assms(2) pow2_less_cancel [of "ilog2 x" j] by simp

lemma fl_finite:
  assumes "0 < x" "x < pow2 j" "- 1021 \<le> j" "j \<le> 53" "x \<le> of_int N"
  shows "\<exists>y. fl x = Finite y \<and> 0 \<le> y \<and> y \<le> of_int N \<and> \<bar>y - x\<bar> \<le> pow2 (j - 54)"
proof -
  define q where "q = max (ilog2 x) (- 1022) - 52"
  define m where "m = round_half_even (x / pow2 q)"
  define y where "y = of_int m * pow2 q"
  have e: "ilog2 x < j" using ilog2_less assms by blast
  have q1: "q \<le> j - 53" using e assms(3) by (simp add: q_def)
  have q0: "q \<le> 0" using q1 assms(4) by simp
  have pq: "0 < pow2 q" by (rule pow2_pos)
  have inv: "1 / pow2 q = pow2 (- q)"
    using pow2_add [of q "- q"] pq by (simp add: field_simps pow2_def)
  have int_grid: "of_int N / pow2 q = of_int (N * 2 ^ nat (- q))"
    using q0 inv by (simp add: pow2_def)
  have "x / pow2 q \<le> of_int N / pow2 q"
    using assms(5) pq by (simp add: divide_right_mono)
  then have mle: "m \<le> N * 2 ^ nat (- q)"
    unfolding m_def int_grid by (rule round_half_even_le)
  have m0: "0 \<le> m"
    unfolding m_def using assms(1) pq by (intro round_half_even_nonneg) simp
  have y0: "0 \<le> y" using m0 pq by (simp add: y_def)
  have "(of_int m :: rat) \<le> of_int (N * 2 ^ nat (- q))"
    using mle by (simp only: of_int_le_iff)
  then have "y \<le> of_int (N * 2 ^ nat (- q)) * pow2 q"
    unfolding y_def using pq by (intro mult_right_mono) auto
  also have "\<dots> = of_int N"
    using int_grid pq by (simp add: field_simps)
  finally have yN: "y \<le> of_int N" .
  have err: "\<bar>y - x\<bar> \<le> pow2 (j - 54)"
  proof -
    have "\<bar>y - x\<bar> = pow2 q * \<bar>of_int m - x / pow2 q\<bar>"
      using pq by (simp add: y_def abs_mult field_simps flip: abs_mult_pos)
    also have "\<dots> \<le> pow2 q * (1 / 2)"
      using round_half_even_error [of "x / pow2 q"] pq
      by (intro mult_left_mono) (auto simp: m_def)
    also have "\<dots> = pow2 (q - 1)"
      using pow2_add [of "q - 1" 1] by (simp add: pow2_def)
    also have "\<dots> \<le> pow2 (j - 54)"
      using q1 by (intro pow2_mono) simp
    finally show ?thesis .
  qed
  have "pow2 j \<le> pow2 53" using assms(4) by (rule pow2_mono)
  then have "x < 2 ^ 53" using assms(2) by (simp add: pow2_def)
  have "y \<le> x + pow2 (j - 54)" using err by linarith
  also have "\<dots> < 2 ^ 53 + pow2 (- 1)"
    using \<open>x < 2 ^ 53\<close> pow2_mono [of "j - 54" "- 1"] assms(4) by simp
  also have "\<dots> < 2 ^ 1024" by (simp add: pow2_def)
  finally have fin: "\<not> 2 ^ 1024 \<le> y" by simp
  have "fl x = Finite y"
    using assms(1) fin by (simp add: fl_def Let_def q_def [symmetric] m_def [symmetric] y_def [symmetric])
  then show ?thesis using y0 yN err by simp
qed

lemma fl_unit_interval:
  assumes "0 \<le> x" "x \<le> 1"
  shows "\<exists>y. fl x = Finite y \<and> 0 \<le> y \<and> y \<le> 1 \<and> \<bar>y - x\<bar> \<le> pow2 (- 53)"
proof (cases "x = 0")
  case True
  then show ?thesis by (simp add: fl_def pow2_def)
next
  case False
  then have "0 < x" using assms(1) by simp
  moreover have "x < pow2 1" using assms(2) by (simp add: pow2_def)
  moreover have "x \<le> of_int 1" using assms(2) by simp
  ultimately show ?thesis using fl_finite [of x 1 1] by simp
qed

lemma fl_percent:
  assumes "0 \<le> x" "x \<le> 100"
  shows "\<exists>y. fl x = Finite y \<and> 0 \<le> y \<and> y \<le> 100 \<and> \<bar>y - x\<bar> \<le> pow2 (- 47)"
proof (cases "x = 0")
  case True
  then show ?thesis by (simp add: fl_def pow2_def)
next
  case False
  then have "0 < x" using assms(1) by simp
  moreover have "x < pow2 7" using assms(2) by (simp add: pow2_def)
  moreover have "x \<le> of_int 100" using assms(2) by simp
  ultimately show ?thesis using fl_finite [of x 7 100] by simp
qed

lemma truediv_valid:
  assumes "0 \<le> c" "c \<le> t" "0 < t"
  shows "\<exists>r. truediv c t = Inr (Finite r) \<and> 0 \<le> r \<and> r \<le> 1 \<and>
             \<bar>r - of_int c / of_int t\<bar> \<le> pow2 (- 53)"
proof -
  have "0 \<le> (of_int c / of_int t :: rat)" "(of_int c / of_int t :: rat) \<le> 1"
    using assms by simp_all
  from fl_unit_interval [OF this] obtain r where
    "fl (of_int c / of_int t) = Finite r" "0 \<le> r" "r \<le> 1"
    "\<bar>r - of_int c / of_int t\<bar> \<le> pow2 (- 53)" by blast
  then show ?thesis using assms(3) by (simp add: truediv_def)
qed

lemma progress_percentage_valid:
  assumes "0 \<le> c" "c \<le> t" "0 < t"
  shows "\<exists>p. progress_percentage c t = Inr (Finite p) \<and> 0 \<le> p \<and> p \<le> 100 \<and>
             \<bar>p - 100 * of_int c / of_int t\<bar> \<le> pow2 (- 45)"
proof -
  from truediv_valid [OF assms] obtain r where r:
    "truediv c t = Inr (Finite r)" "0 \<le> r" "r \<le> 1"
    "\<bar>r - of_int c / of_int t\<bar> \<le> pow2 (- 53)" by blast
  have "0 \<le> r * 100" "r * 100 \<le> 100" using r(2,3) by simp_all
  from fl_percent [OF this] obtain p where p:
    "fl (r * 100) = Finite p" "0 \<le> p" "p \<le> 100" "\<bar>p - r * 100\<bar> \<le> pow2 (- 47)" by blast
  have "r * 100 - 100 * of_int c / of_int t = 100 * (r - of_int c / of_int t)"
    by (simp add: algebra_simps)
  then have "\<bar>r * 100 - 100 * of_int c / of_int t\<bar> = 100 * \<bar>r - of_int c / of_int t\<bar>"
    by (simp only: abs_mult)
  then have "\<bar>r * 100 - 100 * of_int c / of_int t\<bar> \<le> 100 * pow2 (- 53)"
    using r(4) by simp
  then have "\<bar>p - 100 * of_int c / of_int t\<bar> \<le> pow2 (- 47) + 100 * pow2 (- 53)"
    using p(4) by linarith
  also have "\<dots> \<le> pow2 (- 45)" by (simp add: pow2_def)
  finally have "\<bar>p - 100 * of_int c / of_int t\<bar> \<le> pow2 (- 45)" .
  then show ?thesis using r(1) p(1,2,3) by (simp add: progress_percentage_def)
qed

lemma round_half_even_of_int: "round_half_even (of_int M) = M"
  by (simp add: round_half_even_def)

lemma fl_exact:
  assumes "0 < x" "x < pow2 j" "- 1021 \<le> j" "j \<le> 1024" "x / pow2 (j - 53) = of_int M"
  shows "fl x = Finite x"
proof -
  define q where "q = max (ilog2 x) (- 1022) - 52"
  have e: "ilog2 x < j" using ilog2_less assms(1,2) by blast
  have q1: "q \<le> j - 53" using e assms(3) by (simp add: q_def)
  have "pow2 (j - 53) = pow2 q * pow2 (j - 53 - q)"
    using pow2_add [of q "j - 53 - q"] by simp
  also have "pow2 (j - 53 - q) = of_int (2 ^ nat (j - 53 - q))"
    using q1 by (simp add: pow2_def)
  finally have "x / pow2 q = of_int M * of_int (2 ^ nat (j - 53 - q))"
    using assms(5) pow2_pos [of q] pow2_pos [of "j - 53"] by (simp add: field_simps)
  then have "x / pow2 q = of_int (M * 2 ^ nat (j - 53 - q))"
    by simp
  then have "of_int (round_half_even (x / pow2 q)) * pow2 q = x"
    using pow2_pos [of q] by (simp only: round_half_even_of_int) (simp add: field_simps)
  moreover have "x < 2 ^ 1024"
    using assms(2,4) pow2_mono [of j 1024] by (simp add: pow2_def)
  ultimately show ?thesis
    using assms(1) by (simp add: fl_def Let_def q_def [symmetric])
qed

lemma fl_1: "fl 1 = Finite 1"
  by (rule fl_exact [where j = 1 and M = "2 ^ 52"]) (simp_all add: pow2_def)

lemma fl_100: "fl 100 = Finite 100"
  by (rule fl_exact [where j = 7 and M = "100 * 2 ^ 46"]) (simp_all add: pow2_def)

lemma fl_half: "fl (1 / 2) = Finite (1 / 2)"
  by (rule fl_exact [where j = 0 and M = "2 ^ 52"]) (simp_all add: pow2_def)

lemma fl_50: "fl 50 = Finite 50"
  by (rule fl_exact [where j = 6 and M = "50 * 2 ^ 47"]) (simp_all add: pow2_def)

lemma progress_100_100: "progress_percentage 100 100 = Inr (Finite 100)"
  by (simp add: progress_percentage_def truediv_def fl_1 fl_100)

lemma progress_50_100: "progress_percentage 50 100 = Inr (Finite 50)"
  by (simp add: progress_percentage_def truediv_def fl_half fl_50)

lemma round1_50: "py_round1 (Finite 50) = Finite 50"
  by (simp add: round_half_even_def fl_50)

lemma round1_100: "py_round1 (Finite 100) = Finite 100"
  by (simp add: round_half_even_def fl_100)

lemma ilog2_upper:
  assumes "0 < x"
  shows "x < pow2 (ilog2 x + 1)"
proof -
  obtain n d where q: "quotient_of x = (n, d)" by (cases "quotient_of x")
  have d: "0 < d" using quotient_of_denom_pos [OF q] .
  have x: "x = of_int n / of_int d" using quotient_of_div [OF q] .
  have n: "0 < n" using assms d unfolding x by (simp add: zero_less_divide_iff)
  define k where "k = int (floorlog 2 (nat n)) - int (floorlog 2 (nat d))"
  have il: "ilog2 x = (if pow2 k \<le> x then k else k - 1)"
    by (simp add: ilog2_def q k_def Let_def)
  show ?thesis
  proof (cases "pow2 k \<le> x")
    case False
    then show ?thesis by (simp add: il)
  next
    case True
    have ln: "nat n < 2 ^ floorlog 2 (nat n)"
      using floorlog_bounds [of "nat n" 2] n by simp
    have ld: "2 ^ (floorlog 2 (nat d) - 1) \<le> nat d"
      using floorlog_bounds [of "nat d" 2] d by simp
    have ldpos: "0 < floorlog 2 (nat d)"
      using d by (simp add: floorlog_eq_zero_iff zero_less_iff_neq_zero)
    have n': "of_int n < (2::rat) ^ floorlog 2 (nat n)"
    proof -
      have "(of_nat (nat n) :: rat) < of_nat (2 ^ floorlog 2 (nat n))"
        using ln of_nat_less_iff by blast
      then show ?thesis using n by simp
    qed
    have d': "(2::rat) ^ (floorlog 2 (nat d) - 1) \<le> of_int d"
    proof -
      have "of_nat (2 ^ (floorlog 2 (nat d) - 1)) \<le> (of_nat (nat d) :: rat)"
        using ld of_nat_le_iff by blast
      then show ?thesis using d by simp
    qed
    have k1: "k + 1 = int (floorlog 2 (nat n)) - int (floorlog 2 (nat d) - 1)"
      using ldpos by (simp add: k_def)
    have "(of_int n / of_int d :: rat) < 2 ^ floorlog 2 (nat n) / 2 ^ (floorlog 2 (nat d) - 1)"
      using n' d' d n by (intro frac_less) auto
    also have "\<dots> = pow2 (int (floorlog 2 (nat n))) / pow2 (int (floorlog 2 (nat d) - 1))"
      by (simp only: pow2_nat)
    also have "\<dots> = pow2 (k + 1)"
      unfolding k1 by (simp add: pow2_powi power_int_diff)
    finally have "x < pow2 (k + 1)" by (simp add: x)
    then show ?thesis using True by (simp add: il)
  qed
qed

lemma ilog2_unique:
  assumes "pow2 e \<le> x" "x < pow2 (e + 1)"
  shows "ilog2 x = e"
proof -
  have x: "0 < x" using assms(1) pow2_pos [of e] by simp
  have "pow2 (ilog2 x) < pow2 (e + 1)" using ilog2_lower [OF x] assms(2) by simp
  then have a: "ilog2 x < e + 1" by (rule pow2_less_cancel)
  have "pow2 e < pow2 (ilog2 x + 1)" using ilog2_upper [OF x] assms(1) by simp
  then have "e < ilog2 x + 1" by (rule pow2_less_cancel)
  with a show ?thesis by simp
qed

lemma round_half_even_near:
  assumes "\<bar>x - of_int m\<bar> < 1 / 2"
  shows "round_half_even x = m"
proof -
  have "\<bar>of_int (round_half_even x) - x\<bar> \<le> 1 / 2" by (rule round_half_even_error)
  with assms have "\<bar>(of_int (round_half_even x) :: rat) - of_int m\<bar> < 1" by linarith
  then have "\<bar>(of_int (round_half_even x - m) :: rat)\<bar> < of_int 1" by simp
  then have "\<bar>round_half_even x - m\<bar> < 1"
    by (simp only: of_int_abs [symmetric] of_int_less_iff)
  then show ?thesis by simp
qed

lemma fl_eval:
  assumes "pow2 e \<le> x" "x < pow2 (e + 1)" "- 1022 \<le> e" "e < 1023"
    and "\<bar>x / pow2 (e - 52) - of_int m\<bar> < 1 / 2"
  shows "fl x = Finite (of_int m * pow2 (e - 52))"
proof -
  have x: "0 < x" using assms(1) pow2_pos [of e] by simp
  have il: "ilog2 x = e" using assms(1,2) by (rule ilog2_unique)
  have q: "max (ilog2 x) (- 1022) - 52 = e - 52" using il assms(3) by simp
  have r: "round_half_even (x / pow2 (e - 52)) = m" using assms(5) by (rule round_half_even_near)
  have pq: "0 < pow2 (e - 52)" by (rule pow2_pos)
  have "x / pow2 (e - 52) < pow2 (e + 1) / pow2 (e - 52)"
    using assms(2) pq by (simp add: divide_strict_right_mono)
  also have "pow2 (e + 1) / pow2 (e - 52) = pow2 53"
    using pow2_add [of "e - 52" 53] pq by (simp add: field_simps)
  finally have "of_int m < pow2 53 + 1 / 2" using assms(5) by linarith
  then have "(of_int m :: rat) < of_int (2 ^ 53 + 1)" by (simp add: pow2_def)
  then have "m < 2 ^ 53 + 1" by (simp only: of_int_less_iff)
  then have "m \<le> 2 ^ 53" by simp
  then have "(of_int m :: rat) \<le> of_int (2 ^ 53)" by (simp only: of_int_le_iff)
  then have "of_int m * pow2 (e - 52) \<le> pow2 53 * pow2 (e - 52)"
    using pq by (intro mult_right_mono) (auto simp: pow2_def)
  also have "\<dots> = pow2 (e + 1)" by (simp add: pow2_add [symmetric] add.commute)
  also have "\<dots> \<le> pow2 1023" using assms(4) by (intro pow2_mono) simp
  also have "\<dots> < 2 ^ 1024" by (simp add: pow2_def)
  finally have fin: "\<not> 2 ^ 1024 \<le> of_int m * pow2 (e - 52)" by simp
  show ?thesis
    using x fin by (simp add: fl_def Let_def q r)
qed

lemma fl_3_2000: "fl (3 / 2000) = Finite (6917529027641082 * pow2 (- 62))"
  using fl_eval [of "- 10" "3 / 2000" 6917529027641082] by (simp add: pow2_def)

lemma fl_big_quotient:
  "fl (300000000000000001 / 200000000000000000000) = Finite (6917529027641082 * pow2 (- 62))"
  using fl_eval [of "- 10" "300000000000000001 / 200000000000000000000" 6917529027641082]
  by (simp add: pow2_def)

lemma fl_15_percent:
  "fl (6917529027641082 * pow2 (- 62) * 100) = Finite (5404319552844595 * pow2 (- 55))"
  using fl_eval [of "- 3" "6917529027641082 * pow2 (- 62) * 100" 5404319552844595]
  by (simp add: pow2_def)

lemma round1_15_percent:
  "round_half_even (5404319552844595 * pow2 (- 55) * 10) = 1"
  by (rule round_half_even_near) (simp add: pow2_def)

lemma fl_tenth: "fl (1 / 10) = Finite (3602879701896397 / 2 ^ 55)"
  using fl_eval [of "- 4" "1 / 10" 7205759403792794] by (simp add: pow2_def)

lemma fl_two_tenths: "fl (2 / 10) = Finite (3602879701896397 / 2 ^ 54)"
  using fl_eval [of "- 3" "2 / 10" 7205759403792794] by (simp add: pow2_def)

lemma progress_3_2000:
  "progress_percentage 3 2000 = Inr (Finite (5404319552844595 * pow2 (- 55)))"
proof -
  have "truediv 3 2000 = Inr (Finite (6917529027641082 * pow2 (- 62)))"
    by (simp add: truediv_def fl_3_2000)
  then show ?thesis
    by (simp only: progress_percentage_def sum.case times100.simps fl_15_percent)
qed

lemma progress_big:
  "progress_percentage 300000000000000001 200000000000000000000 =
     Inr (Finite (5404319552844595 * pow2 (- 55)))"
proof -
  have "truediv 300000000000000001 200000000000000000000 =
          Inr (Finite (6917529027641082 * pow2 (- 62)))"
    by (simp add: truediv_def fl_big_quotient)
  then show ?thesis
    by (simp only: progress_percentage_def sum.case times100.simps fl_15_percent)
qed

lemma round1_progress:
  "py_round1 (Finite (5404319552844595 * pow2 (- 55))) = Finite (3602879701896397 / 2 ^ 55)"
proof -
  have "py_round1 (Finite (5404319552844595 * pow2 (- 55))) = fl (of_int 1 / 10)"
    by (simp only: py_round1.simps round1_15_percent)
  then show ?thesis by (simp add: fl_tenth)
qed

subsection \<open>Prompt Builder: the phase\<close>

lemma prompt_0_100:
  "generate_motivational_prompt 0 100 =
     Inr \<lparr> p_days_completed = 100, p_total_target = 100, p_days_left = 0,
           p_progress_percentage = Finite 100, p_phase = ''final sprint'',
           p_tone = ''determined and finish-strong'' \<rparr>"
  by (simp add: generate_motivational_prompt_def progress_100_100 phase_and_tone_def)

lemma prompt_50_100:
  "generate_motivational_prompt 50 100 =
     Inr \<lparr> p_days_completed = 50, p_total_target = 100, p_days_left = 50,
           p_progress_percentage = Finite 50, p_phase = ''middle journey'',
           p_tone = ''resilient and persistent'' \<rparr>"
  by (simp add: generate_motivational_prompt_def progress_50_100 phase_and_tone_def)

text \<open>
  Claim C3, as the code has it: for \<open>days_left = 0\<close> and \<open>total_target = 100\<close> all 100
  days are completed, the progress is 100 percent, and the phase that the Prompt Builder
  computes is "final sprint".
\<close>

theorem phase_at_zero_days_left:
  "map_sum id p_phase (generate_motivational_prompt 0 100) = Inr ''final sprint''"
  by (simp add: prompt_0_100)

text \<open>The phase at that input is not "beginning", which is what claim C3 states.\<close>

theorem phase_at_zero_days_left_not_beginning:
  "map_sum id p_phase (generate_motivational_prompt 0 100) \<noteq> Inr ''beginning''"
  by (simp add: prompt_0_100)

text \<open>
  Claim C4: for every valid input (\<open>0 \<le> days_left \<le> total_target\<close>, \<open>0 < total_target\<close>)
  the progress is a finite number \<open>p\<close>, the prompt is built, and its phase and tone are
  fixed by \<open>p\<close> alone: "beginning" exactly when \<open>p < 25\<close>, "early progress" exactly when
  \<open>25 \<le> p < 50\<close>, "middle journey" exactly when \<open>50 \<le> p < 75\<close>, "final sprint" exactly
  when \<open>75 \<le> p\<close>, each with its own tone. The four ranges are disjoint and cover every
  \<open>p\<close>.
\<close>

theorem phase_buckets:
  assumes "0 \<le> days_left" "0 < total_target" "days_left \<le> total_target"
  shows "\<exists>p pr. progress_percentage (total_target - days_left) total_target = Inr (Finite p) \<and>
           generate_motivational_prompt days_left total_target = Inr pr \<and>
           p_progress_percentage pr = Finite p \<and>
           ((p_phase pr = ''beginning'' \<and> p_tone pr = ''energetic and encouraging'')
              = (p < 25)) \<and>
           ((p_phase pr = ''early progress'' \<and> p_tone pr = ''motivating and momentum-building'')
              = (25 \<le> p \<and> p < 50)) \<and>
           ((p_phase pr = ''middle journey'' \<and> p_tone pr = ''resilient and persistent'')
              = (50 \<le> p \<and> p < 75)) \<and>
           ((p_phase pr = ''final sprint'' \<and> p_tone pr = ''determined and finish-strong'')
              = (75 \<le> p))"
proof -
  from progress_percentage_valid [of "total_target - days_left" total_target] assms
  obtain p where p: "progress_percentage (total_target - days_left) total_target = Inr (Finite p)"
    by auto
  show ?thesis
    by (simp add: p generate_motivational_prompt_def phase_and_tone_def)
qed

theorem phase_buckets_witness:
  "(0::int) \<le> 50 \<and> (0::int) < 100 \<and> (50::int) \<le> 100 \<and>
   map_sum id p_phase (generate_motivational_prompt 50 100) = Inr ''middle journey'' \<and>
   map_sum id p_tone (generate_motivational_prompt 50 100) = Inr ''resilient and persistent''"
proof -
  from phase_buckets [of 50 100] obtain p pr where
    a: "progress_percentage (100 - 50) 100 = Inr (Finite p)" and
    b: "generate_motivational_prompt 50 100 = Inr pr" and
    c: "(p_phase pr = ''middle journey'' \<and> p_tone pr = ''resilient and persistent'')
          = (50 \<le> p \<and> p < 75)"
    by auto
  from a have "p = 50" by (simp add: progress_50_100)
  with c have "p_phase pr = ''middle journey'' \<and> p_tone pr = ''resilient and persistent''"
    by simp
  with b show ?thesis by simp
qed

subsection \<open>Completion Client: the length limit\<close>

lemma post_process_replicate_a:
  "post_process (replicate n (CHR ''a'')) = replicate n (CHR ''a'')"
proof -
  have a: "\<And>P. \<not> P (CHR ''a'') \<Longrightarrow> dropWhile P (replicate n (CHR ''a'')) = replicate n (CHR ''a'')"
    by (cases n) simp_all
  show ?thesis
    by (simp add: post_process_def strip_def strip_chars_def a is_space_def squote_def dquote_def)
qed

lemma extract_completion:
  "extract_quote (JObj [(''choices'',
       JArr [JObj [(''message'', JObj [(''role'', JStr ''assistant''),
                                       (''content'', JStr content)])]])]) = Inr (strip content)"
  by (simp add: extract_quote_def message_quote_def and_then_def)

lemma client_completion:
  assumes "generate_motivational_prompt d t = Inr pr" "strip content \<noteq> []"
  shows "fst (get_quote_from_llm (upstream (env_of (completion content))) d t) =
           (Some (limit_length (post_process (strip content))), None)"
  using assms
  by (simp add: get_quote_from_llm_def env_of_def completion_def extract_completion
        finish_quote_def)

lemma strip_replicate_a: "strip (replicate n (CHR ''a'')) = replicate n (CHR ''a'')"
proof -
  have a: "\<And>P. \<not> P (CHR ''a'') \<Longrightarrow> dropWhile P (replicate n (CHR ''a'')) = replicate n (CHR ''a'')"
    by (cases n) simp_all
  show ?thesis by (simp add: strip_def a is_space_def)
qed

text \<open>
  Claim C5: when the upstream call answers 200 with a JSON body from which a non-empty
  quote is extracted, and the post-processed quote is longer than 200 characters, the
  Completion Client returns its first 200 characters followed by \<open>...\<close>, 203
  characters in all, and no error; when it has at most 200 characters, the Completion
  Client returns it as it is.
\<close>

theorem length_limit:
  assumes "generate_motivational_prompt days_left total_target = Inr prompt"
    and "up prompt = Responds 200 (JsonBody response_data)"
    and "extract_quote response_data = Inr quote"
    and "quote \<noteq> []"
  shows "(200 < length (post_process quote) \<longrightarrow>
            fst (get_quote_from_llm up days_left total_target) =
              (Some (take 200 (post_process quote) @ ''...''), None) \<and>
            length (take 200 (post_process quote) @ ''...'') = 203) \<and>
         (length (post_process quote) \<le> 200 \<longrightarrow>
            fst (get_quote_from_llm up days_left total_target) =
              (Some (post_process quote), None))"
  using assms by (simp add: get_quote_from_llm_def finish_quote_def limit_length_def)

theorem length_limit_witness:
  "fst (get_quote_from_llm (upstream (env_of (completion (replicate 201 (CHR ''a''))))) 50 100)
     = (Some (replicate 200 (CHR ''a'') @ ''...''), None) \<and>
   fst (get_quote_from_llm (upstream (env_of (completion ''ab''))) 50 100)
     = (Some ''ab'', None)"
proof -
  let ?j = "\<lambda>content. JObj [(''choices'',
       JArr [JObj [(''message'', JObj [(''role'', JStr ''assistant''),
                                       (''content'', JStr content)])]])]"
  have u: "\<And>content. upstream (env_of (completion content))
             \<lparr> p_days_completed = 50, p_total_target = 100, p_days_left = 50,
               p_progress_percentage = Finite 50, p_phase = ''middle journey'',
               p_tone = ''resilient and persistent'' \<rparr> = Responds 200 (JsonBody (?j content))"
    by (simp add: env_of_def completion_def)
  have e1: "extract_quote (?j (replicate 201 (CHR ''a''))) = Inr (replicate 201 (CHR ''a''))"
    by (simp only: extract_completion strip_replicate_a)
  have n1: "replicate 201 (CHR ''a'') \<noteq> []" by simp
  have e2: "extract_quote (?j ''ab'') = Inr ''ab''" by code_simp
  have n2: "''ab'' \<noteq> []" by simp
  have p2: "post_process ''ab'' = ''ab''" by code_simp
  show ?thesis
    using length_limit [where up = "upstream (env_of (completion (replicate 201 (CHR ''a''))))",
            OF prompt_50_100 u e1 n1]
          length_limit [where up = "upstream (env_of (completion ''ab''))",
            OF prompt_50_100 u e2 n2]
    by (simp add: post_process_replicate_a p2)
qed


subsection \<open>Completion Client: post-processing\<close>

lemma trim_decomp:
  "\<exists>l r. s = l @ rev (dropWhile P (rev (dropWhile P s))) @ r \<and> list_all P l \<and> list_all P r"
proof -
  let ?m = "dropWhile P s"
  have a: "s = takeWhile P s @ ?m" by simp
  have "rev ?m = takeWhile P (rev ?m) @ dropWhile P (rev ?m)" by simp
  then have "rev (rev ?m) = rev (takeWhile P (rev ?m) @ dropWhile P (rev ?m))" by simp
  then have b: "?m = rev (dropWhile P (rev ?m)) @ rev (takeWhile P (rev ?m))"
    by (simp only: rev_rev_ident rev_append)
  have c: "list_all P (takeWhile P s)" "list_all P (rev (takeWhile P (rev ?m)))"
    by (auto simp: list_all_iff dest: set_takeWhileD)
  have "s = takeWhile P s @ rev (dropWhile P (rev ?m)) @ rev (takeWhile P (rev ?m))"
    using a b by metis
  with c show ?thesis by blast
qed

lemma trim_ends:
  "rev (dropWhile P (rev (dropWhile P s))) = [] \<or>
   (\<not> P (hd (rev (dropWhile P (rev (dropWhile P s))))) \<and>
    \<not> P (last (rev (dropWhile P (rev (dropWhile P s))))))"
proof (cases "dropWhile P (rev (dropWhile P s)) = []")
  case True
  then show ?thesis by simp
next
  case False
  let ?m = "dropWhile P s"
  let ?t = "dropWhile P (rev ?m)"
  have l: "\<not> P (hd ?t)" using False hd_dropWhile by blast
  have mne: "?m \<noteq> []"
  proof
    assume "?m = []"
    then have "?t = []" by (simp only: rev.simps(1) dropWhile.simps(1))
    with False show False by simp
  qed
  have h: "\<not> P (hd ?m)" using mne hd_dropWhile by blast
  have "last ?t = last (rev ?m)" using False by (metis last_appendR takeWhile_dropWhile_id)
  then have "last ?t = hd ?m" using mne by (simp add: last_rev)
  then show ?thesis using l h False by (simp add: hd_rev last_rev)
qed

text \<open>
  Claim C2, as the code has it: for every string, line 125 removes all the leading and
  all the trailing double quotes, then all the leading and all the trailing single quotes
  of what is left, then the surrounding whitespace of what is left. So the quote is
  \<open>l1 @ a @ r1\<close> with \<open>l1\<close>, \<open>r1\<close> made of double quotes and \<open>a\<close> neither starting nor
  ending with one; \<open>a\<close> is \<open>l2 @ b @ r2\<close> with \<open>l2\<close>, \<open>r2\<close> made of single quotes and \<open>b\<close>
  neither starting nor ending with one; and \<open>b\<close> is \<open>l3 @ post_process quote @ r3\<close> with
  \<open>l3\<close>, \<open>r3\<close> made of whitespace and the result neither starting nor ending with
  whitespace. Nothing inside the result is removed.
\<close>

theorem post_process_strips_all:
  "\<exists>a b l1 r1 l2 r2 l3 r3.
     quote = l1 @ a @ r1 \<and> list_all (\<lambda>c. c = dquote) (l1 @ r1) \<and>
     (a = [] \<or> (hd a \<noteq> dquote \<and> last a \<noteq> dquote)) \<and>
     a = l2 @ b @ r2 \<and> list_all (\<lambda>c. c = squote) (l2 @ r2) \<and>
     (b = [] \<or> (hd b \<noteq> squote \<and> last b \<noteq> squote)) \<and>
     b = l3 @ post_process quote @ r3 \<and> list_all is_space (l3 @ r3) \<and>
     (post_process quote = [] \<or>
      (\<not> is_space (hd (post_process quote)) \<and> \<not> is_space (last (post_process quote))))"
proof -
  define a where "a = strip_chars [dquote] quote"
  define b where "b = strip_chars [squote] a"
  have c: "post_process quote = strip b"
    by (simp add: post_process_def a_def b_def)
  from trim_decomp [of quote "\<lambda>c. c \<in> set [dquote]"] obtain l1 r1 where
    1: "quote = l1 @ a @ r1" "list_all (\<lambda>c. c = dquote) (l1 @ r1)"
    by (auto simp: a_def strip_chars_def)
  from trim_decomp [of a "\<lambda>c. c \<in> set [squote]"] obtain l2 r2 where
    2: "a = l2 @ b @ r2" "list_all (\<lambda>c. c = squote) (l2 @ r2)"
    by (auto simp: b_def strip_chars_def)
  from trim_decomp [of b is_space] obtain l3 r3 where
    3: "b = l3 @ post_process quote @ r3" "list_all is_space (l3 @ r3)"
    by (auto simp: c strip_def)
  have 4: "a = [] \<or> (hd a \<noteq> dquote \<and> last a \<noteq> dquote)"
    using trim_ends [of "\<lambda>c. c \<in> set [dquote]" quote] by (simp add: a_def strip_chars_def)
  have 5: "b = [] \<or> (hd b \<noteq> squote \<and> last b \<noteq> squote)"
    using trim_ends [of "\<lambda>c. c \<in> set [squote]" a] by (simp add: b_def strip_chars_def)
  have 6: "post_process quote = [] \<or>
      (\<not> is_space (hd (post_process quote)) \<and> \<not> is_space (last (post_process quote)))"
    using trim_ends [of is_space b] by (simp add: c strip_def)
  from 1 2 3 4 5 6 show ?thesis by blast
qed

text \<open>
  On the quote \<open>""a""\<close> the code removes both pairs of double quotes and returns \<open>a\<close>,
  where stripping exactly one pair, as claim C2 states, would leave \<open>"a"\<close>.
\<close>

theorem post_process_removes_two_pairs:
  "post_process ([dquote, dquote] @ ''a'' @ [dquote, dquote]) = ''a'' \<and>
   spec_post_process ([dquote, dquote] @ ''a'' @ [dquote, dquote]) = [dquote] @ ''a'' @ [dquote]"
  by (simp add: post_process_def spec_post_process_def strip_one_pair_def strip_chars_def
        strip_def dquote_def squote_def is_space_def)

subsection \<open>Completion Client: the reasoning field\<close>

lemma lower_char_colon: "lower_char c = CHR '':'' \<Longrightarrow> c = CHR '':''"
proof (rule ccontr)
  assume l: "lower_char c = CHR '':''" and n: "c \<noteq> CHR '':''"
  define k where "k = (of_char c :: nat)"
  from l n have r: "(65 \<le> k \<and> k \<le> 90) \<or> (192 \<le> k \<and> k \<le> 222 \<and> k \<noteq> 215)"
    and e: "char_of (k + 32) = CHR '':''"
    by (auto simp: lower_char_def Let_def k_def split: if_splits)
  from e have "(of_char (char_of (k + 32) :: char) :: nat) = of_char (CHR '':'')" by simp
  then have "(k + 32) mod 256 = 58" by simp
  with r show False by (auto simp: mod_if split: if_splits)
qed

lemma py_in_set: "py_in sub s \<Longrightarrow> set sub \<subseteq> set s"
proof (induction s)
  case Nil
  then show ?case by simp
next
  case (Cons c cs)
  from Cons.prems have "prefix sub (c # cs) \<or> py_in sub cs" by simp
  then show ?case
  proof
    assume "prefix sub (c # cs)"
    then show ?thesis by (rule set_mono_prefix)
  next
    assume "py_in sub cs"
    then have "set sub \<subseteq> set cs" by (rule Cons.IH)
    then show ?thesis by auto
  qed
qed

lemma has_marker_colon: "has_marker line \<Longrightarrow> CHR '':'' \<in> set line"
proof -
  assume "has_marker line"
  then obtain k where k: "k \<in> set markers" "py_in k (py_lower line)"
    by (auto simp: has_marker_def list_ex_iff)
  then have "CHR '':'' \<in> set k" by (auto simp: markers_def)
  with k(2) have "CHR '':'' \<in> set (py_lower line)" using py_in_set by blast
  then obtain c where "c \<in> set line" "lower_char c = CHR '':''"
    by (auto simp: py_lower_def)
  then show ?thesis using lower_char_colon by blast
qed

lemma split1_at_first:
  "c \<in> set line \<Longrightarrow> \<exists>w. split1 [c] line = [w, tl (dropWhile (\<lambda>x. x \<noteq> c) line)]"
proof (induction line)
  case Nil
  then show ?case by simp
next
  case (Cons x xs)
  show ?case
  proof (cases "x = c")
    case True
    then show ?thesis by simp
  next
    case False
    with Cons obtain w where "split1 [c] xs = [w, tl (dropWhile (\<lambda>x. x \<noteq> c) xs)]" by auto
    with False show ?thesis by simp
  qed
qed

lemma split1_after_first_colon:
  "has_marker line \<Longrightarrow> last (split1 '':'' line) = after_first_colon line"
  using split1_at_first [OF has_marker_colon, of line] by (auto simp: after_first_colon_def)

lemma scan_lines_find:
  "scan_lines ls =
     (case find has_marker ls of None \<Rightarrow> [] | Some line \<Rightarrow> strip (last (split1 '':'' line)))"
  by (induction ls) simp_all

lemma find_has_marker: "find has_marker ls = Some line \<Longrightarrow> has_marker line"
  by (induction ls) (auto split: if_splits)

lemma message_quote_reasoning:
  assumes "dict_get (JObj msg) ''content'' (JStr []) = Inr (JStr content)"
    and "strip content = []"
    and "map_of msg ''reasoning'' = Some (JStr reasoning)"
  shows "message_quote (JObj msg) = Inr (quote_from_reasoning reasoning)"
  using assms by (simp add: message_quote_def and_then_def)

lemma endswith_dot: "endswith s ''.'' = (s \<noteq> [] \<and> last s = CHR ''.'')"
  by (cases s rule: rev_cases) (auto simp: endswith_def)

text \<open>
  Claim C1, as the code has it: when the content is empty after trimming, the message
  has a \<open>reasoning\<close> text that contains "quote" (in any case), \<open>line\<close> is the first
  line of that text with one of the markers "quote:", "response:", "answer:" (in any
  case), and the text after the first colon of that line is not empty after trimming,
  then the extracted quote is that trimmed text. (When it is empty the extraction goes
  on to the last sentence: claim C10.)
\<close>

theorem marker_line_quote:
  assumes "dict_get (JObj msg) ''content'' (JStr []) = Inr (JStr content)"
    and "strip content = []"
    and "map_of msg ''reasoning'' = Some (JStr reasoning)"
    and "py_in ''quote'' (py_lower reasoning)"
    and "find has_marker (py_split [newline] reasoning) = Some line"
    and "strip (after_first_colon line) \<noteq> []"
  shows "message_quote (JObj msg) = Inr (strip (after_first_colon line))"
proof -
  have "has_marker line" using assms(5) by (rule find_has_marker)
  then have "last (split1 '':'' line) = after_first_colon line"
    by (rule split1_after_first_colon)
  then have "scan_lines (py_split [newline] reasoning) = strip (after_first_colon line)"
    using assms(5) by (simp add: scan_lines_find)
  then have "quote_from_reasoning reasoning = strip (after_first_colon line)"
    using assms(4,6) by (simp add: quote_from_reasoning_def)
  then show ?thesis
    using message_quote_reasoning [OF assms(1,2,3)] by simp
qed

text \<open>
  The example of the specification: content \<open>""\<close> and reasoning
  \<open>... the quote: Build boldly.\<close> give the quote \<open>Build boldly.\<close>, which lines 124 to
  129 return unchanged.
\<close>

theorem marker_line_quote_witness:
  "message_quote (JObj [(''content'', JStr []),
                        (''reasoning'', JStr ''... the quote: Build boldly.'')])
     = Inr ''Build boldly.'' \<and>
   finish_quote ''Build boldly.'' = (Some ''Build boldly.'', None)"
proof -
  let ?r = "''... the quote: Build boldly.''"
  let ?msg = "[(''content'', JStr []), (''reasoning'', JStr ?r)]"
  have 1: "dict_get (JObj ?msg) ''content'' (JStr []) = Inr (JStr [])" by code_simp
  have 2: "strip [] = []" by code_simp
  have 3: "map_of ?msg ''reasoning'' = Some (JStr ?r)" by code_simp
  have 4: "py_in ''quote'' (py_lower ?r)" by code_simp
  have 5: "find has_marker (py_split [newline] ?r) = Some ?r" by code_simp
  have 6: "strip (after_first_colon ?r) \<noteq> []" by code_simp
  have 7: "strip (after_first_colon ?r) = ''Build boldly.''" by code_simp
  have 8: "finish_quote ''Build boldly.'' = (Some ''Build boldly.'', None)" by code_simp
  from marker_line_quote [OF 1 2 3 4 5 6] 7 8 show ?thesis by simp
qed

text \<open>
  Claim C1 as stated fails when nothing follows the colon: for the reasoning \<open>quote:\<close>
  every condition of the claim holds and the text after the first colon is empty, but the
  extracted quote is \<open>quote:\<close>.
\<close>

theorem empty_marker_text_not_returned:
  "py_in ''quote'' (py_lower ''quote:'') \<and>
   find has_marker (py_split [newline] ''quote:'') = Some ''quote:'' \<and>
   strip (after_first_colon ''quote:'') = [] \<and>
   message_quote (JObj [(''content'', JStr []), (''reasoning'', JStr ''quote:'')])
     = Inr ''quote:''"
  by code_simp

text \<open>
  Claim C10: when the first line with a marker has nothing but whitespace after its
  first colon, the extraction does not stop with an empty quote. The quote is the last
  element of the reasoning text split on \<open>". "\<close>, trimmed, with one trailing \<open>.\<close>
  removed if it ends with one.
\<close>

theorem empty_marker_falls_through:
  assumes "dict_get (JObj msg) ''content'' (JStr []) = Inr (JStr content)"
    and "strip content = []"
    and "map_of msg ''reasoning'' = Some (JStr reasoning)"
    and "py_in ''quote'' (py_lower reasoning)"
    and "find has_marker (py_split [newline] reasoning) = Some line"
    and "strip (after_first_colon line) = []"
  shows "message_quote (JObj msg) =
           Inr (let s = strip (last (py_split ''. '' reasoning))
                in if s \<noteq> [] \<and> last s = CHR ''.'' then butlast s else s)"
proof -
  have "has_marker line" using assms(5) by (rule find_has_marker)
  then have "last (split1 '':'' line) = after_first_colon line"
    by (rule split1_after_first_colon)
  then have "scan_lines (py_split [newline] reasoning) = []"
    using assms(5,6) by (simp add: scan_lines_find)
  then have "quote_from_reasoning reasoning = last_sentence reasoning"
    using assms(4) by (simp add: quote_from_reasoning_def)
  then show ?thesis
    using message_quote_reasoning [OF assms(1,2,3)]
    by (simp add: last_sentence_def endswith_dot)
qed

theorem empty_marker_falls_through_witness:
  "message_quote
     (JObj [(''content'', JStr ''  ''),
            (''reasoning'',
             JStr (''Answer:'' @ [newline] @ ''The quote works. Ship it today.''))])
     = Inr ''Ship it today''"
proof -
  let ?r = "''Answer:'' @ [newline] @ ''The quote works. Ship it today.''"
  let ?msg = "[(''content'', JStr ''  ''), (''reasoning'', JStr ?r)]"
  have 1: "dict_get (JObj ?msg) ''content'' (JStr []) = Inr (JStr ''  '')" by code_simp
  have 2: "strip ''  '' = []" by code_simp
  have 3: "map_of ?msg ''reasoning'' = Some (JStr ?r)" by code_simp
  have 4: "py_in ''quote'' (py_lower ?r)" by code_simp
  have 5: "find has_marker (py_split [newline] ?r) = Some ''Answer:''" by code_simp
  have 6: "strip (after_first_colon ''Answer:'') = []" by code_simp
  have 7: "(let s = strip (last (py_split ''. '' ?r))
            in if s \<noteq> [] \<and> last s = CHR ''.'' then butlast s else s) = ''Ship it today''"
    by code_simp
  from empty_marker_falls_through [OF 1 2 3 4 5 6] 7 show ?thesis by simp
qed

subsection \<open>Request Handler\<close>

lemma py_int_empty: "py_int m [] = None"
  by (simp add: py_int_def)

lemma handler_valid:
  assumes "map_of args ''daysLeft'' = Some a" "map_of args ''totalTarget'' = Some b"
    and "py_int (max_str_digits env) a = Some d" "py_int (max_str_digits env) b = Some t"
    and "0 \<le> d" "0 < t" "d \<le> t"
  shows "get_motivational_quote env args =
           (respond (choice_index env) d t (fst (get_quote_from_llm (upstream env) d t)),
            snd (get_quote_from_llm (upstream env) d t))"
proof -
  have "a \<noteq> []" "b \<noteq> []" using assms(3,4) py_int_empty by auto
  then show ?thesis
    using assms by (simp add: get_motivational_quote_def truthy_def split: prod.split)
qed

lemma handler_invalid:
  assumes "map_of args ''daysLeft'' = None \<or> map_of args ''totalTarget'' = None \<or>
           Option.bind (map_of args ''daysLeft'') (py_int (max_str_digits env)) = None \<or>
           Option.bind (map_of args ''totalTarget'') (py_int (max_str_digits env)) = None \<or>
           the (Option.bind (map_of args ''daysLeft'') (py_int (max_str_digits env))) < 0 \<or>
           the (Option.bind (map_of args ''totalTarget'') (py_int (max_str_digits env))) \<le> 0 \<or>
           the (Option.bind (map_of args ''totalTarget'') (py_int (max_str_digits env)))
             < the (Option.bind (map_of args ''daysLeft'') (py_int (max_str_digits env)))"
  shows "status_code (fst (get_motivational_quote env args)) = 400 \<and>
         snd (get_motivational_quote env args) = []"
proof (cases "map_of args ''daysLeft''")
  case None
  then show ?thesis by (simp add: get_motivational_quote_def truthy_def bad_request_def)
next
  case (Some a)
  note a = this
  show ?thesis
  proof (cases "map_of args ''totalTarget''")
    case None
    then show ?thesis by (simp add: get_motivational_quote_def truthy_def bad_request_def)
  next
    case (Some b)
    show ?thesis
      using assms a Some
      by (auto simp: get_motivational_quote_def truthy_def bad_request_def
          split: option.splits prod.splits)
  qed
qed

lemma respond_valid:
  assumes "0 \<le> d" "0 < t" "d \<le> t"
  shows "\<exists>p. progress_percentage (t - d) t = Inr (Finite p) \<and>
    respond i d t r =
     (if truthy (snd r)
      then \<lparr> status_code = 200,
             payload = [(''quote'', PStr (random_choice i fallback_quotes)),
                        (''daysLeft'', PInt d),
                        (''totalTarget'', PInt t),
                        (''progressPercentage'', PFloat (py_round1 (Finite p))),
                        (''warning'', PStr ''Used fallback quote due to API issues'')] \<rparr>
      else \<lparr> status_code = 200,
             payload = [(''quote'', (case fst r of None \<Rightarrow> PNone | Some q \<Rightarrow> PStr q)),
                        (''daysLeft'', PInt d),
                        (''totalTarget'', PInt t),
                        (''daysCompleted'', PInt (t - d)),
                        (''progressPercentage'', PFloat (py_round1 (Finite p)))] \<rparr>)"
proof -
  from progress_percentage_valid [of "t - d" t] assms
  obtain p where "progress_percentage (t - d) t = Inr (Finite p)" by auto
  then show ?thesis by (simp add: respond_def)
qed

lemma handler_status_valid:
  assumes "map_of args ''daysLeft'' = Some a" "map_of args ''totalTarget'' = Some b"
    and "py_int (max_str_digits env) a = Some d" "py_int (max_str_digits env) b = Some t"
    and "0 \<le> d" "0 < t" "d \<le> t"
  shows "status_code (fst (get_motivational_quote env args)) = 200"
proof -
  from respond_valid [OF assms(5,6,7), of "choice_index env"
      "fst (get_quote_from_llm (upstream env) d t)"]
  have "status_code (respond (choice_index env) d t
          (fst (get_quote_from_llm (upstream env) d t))) = 200"
    by (auto split: if_splits)
  then show ?thesis by (simp add: handler_valid [OF assms])
qed

text \<open>
  Claim C6: the handler answers 400 exactly when \<open>daysLeft\<close> or \<open>totalTarget\<close> is
  missing, or one of them is not accepted by \<open>int()\<close> (the empty string is not), or
  \<open>days_left < 0\<close>, or \<open>total_target \<le> 0\<close>, or \<open>days_left > total_target\<close>; and
  whenever it answers 400, no prompt has been sent upstream.
\<close>

theorem validation_error_iff:
  "let a = map_of args ''daysLeft''; b = map_of args ''totalTarget'';
       d = Option.bind a (py_int (max_str_digits env));
       t = Option.bind b (py_int (max_str_digits env));
       result = get_motivational_quote env args
   in (status_code (fst result) = 400) =
        (a = None \<or> b = None \<or> d = None \<or> t = None \<or> the d < 0 \<or> the t \<le> 0 \<or> the t < the d) \<and>
      (status_code (fst result) = 400 \<longrightarrow> snd result = [])"
proof (cases "map_of args ''daysLeft'' = None \<or> map_of args ''totalTarget'' = None \<or>
           Option.bind (map_of args ''daysLeft'') (py_int (max_str_digits env)) = None \<or>
           Option.bind (map_of args ''totalTarget'') (py_int (max_str_digits env)) = None \<or>
           the (Option.bind (map_of args ''daysLeft'') (py_int (max_str_digits env))) < 0 \<or>
           the (Option.bind (map_of args ''totalTarget'') (py_int (max_str_digits env))) \<le> 0 \<or>
           the (Option.bind (map_of args ''totalTarget'') (py_int (max_str_digits env)))
             < the (Option.bind (map_of args ''daysLeft'') (py_int (max_str_digits env)))")
  case True
  from handler_invalid [OF True] True show ?thesis by (simp add: Let_def)
next
  case False
  then obtain a b d t where v:
    "map_of args ''daysLeft'' = Some a" "map_of args ''totalTarget'' = Some b"
    "py_int (max_str_digits env) a = Some d" "py_int (max_str_digits env) b = Some t"
    "0 \<le> d" "0 < t" "d \<le> t"
    by (auto simp: not_less not_le)
  from handler_status_valid [OF v] v show ?thesis by (simp add: Let_def)
qed

lemma parse_200: "py_int 4300 ''200'' = Some 200" by code_simp
lemma parse_100: "py_int 4300 ''100'' = Some 100" by code_simp
lemma parse_50: "py_int 4300 ''50'' = Some 50" by code_simp
lemma parse_0: "py_int 4300 ''0'' = Some 0" by code_simp

theorem validation_error_iff_witness:
  "status_code (fst (get_motivational_quote (env_of (Raises [])) (query ''200'' ''100''))) = 400 \<and>
   snd (get_motivational_quote (env_of (Raises [])) (query ''200'' ''100'')) = []"
  using validation_error_iff [of "query ''200'' ''100''" "env_of (Raises [])"]
  by (simp add: Let_def query_def env_of_def parse_200 parse_100)

text \<open>
  Claim C9: a request whose \<open>total_target\<close> is not positive is answered 400 with no
  upstream call; every request that is not answered 400 has parsed parameters with
  \<open>0 < total_target\<close>, its prompt is built and its progress percentage is a finite
  number, so it is answered 200 and never by the handler for internal errors. A division
  raises \<open>ZeroDivisionError\<close> exactly when the divisor is zero, which no path reaches.
\<close>

theorem divisor_positive:
  "let d = Option.bind (map_of args ''daysLeft'') (py_int (max_str_digits env));
       t = Option.bind (map_of args ''totalTarget'') (py_int (max_str_digits env));
       result = get_motivational_quote env args
   in (t \<noteq> None \<and> the t \<le> 0 \<longrightarrow> status_code (fst result) = 400 \<and> snd result = []) \<and>
      (status_code (fst result) \<noteq> 400 \<longrightarrow>
         d \<noteq> None \<and> t \<noteq> None \<and> 0 < the t \<and>
         (\<exists>pr. generate_motivational_prompt (the d) (the t) = Inr pr) \<and>
         (\<exists>p. progress_percentage (the t - the d) (the t) = Inr (Finite p)) \<and>
         status_code (fst result) = 200) \<and>
      ((progress_percentage c z = Inl ZeroDivisionError) = (z = 0))"
proof -
  have z: "(progress_percentage c z = Inl ZeroDivisionError) = (z = 0)"
    by (auto simp: progress_percentage_def truediv_def split: pyfloat.splits)
  show ?thesis
  proof (cases "map_of args ''daysLeft'' = None \<or> map_of args ''totalTarget'' = None \<or>
           Option.bind (map_of args ''daysLeft'') (py_int (max_str_digits env)) = None \<or>
           Option.bind (map_of args ''totalTarget'') (py_int (max_str_digits env)) = None \<or>
           the (Option.bind (map_of args ''daysLeft'') (py_int (max_str_digits env))) < 0 \<or>
           the (Option.bind (map_of args ''totalTarget'') (py_int (max_str_digits env))) \<le> 0 \<or>
           the (Option.bind (map_of args ''totalTarget'') (py_int (max_str_digits env)))
             < the (Option.bind (map_of args ''daysLeft'') (py_int (max_str_digits env)))")
    case True
    from handler_invalid [OF True] z show ?thesis by (simp add: Let_def)
  next
    case False
    then obtain a b d t where v:
      "map_of args ''daysLeft'' = Some a" "map_of args ''totalTarget'' = Some b"
      "py_int (max_str_digits env) a = Some d" "py_int (max_str_digits env) b = Some t"
      "0 \<le> d" "0 < t" "d \<le> t"
      by (auto simp: not_less not_le)
    from progress_percentage_valid [of "t - d" t] v(5,6,7)
    obtain p where p: "progress_percentage (t - d) t = Inr (Finite p)" by auto
    then have "\<exists>pr. generate_motivational_prompt d t = Inr pr"
      by (simp add: generate_motivational_prompt_def)
    with handler_status_valid [OF v] v p z show ?thesis by (simp add: Let_def)
  qed
qed

theorem divisor_positive_witness:
  "status_code (fst (get_motivational_quote (env_of (Raises ''timed out'')) (query ''50'' ''0''))) = 400 \<and>
   snd (get_motivational_quote (env_of (Raises ''timed out'')) (query ''50'' ''0'')) = [] \<and>
   (progress_percentage 50 0 = Inl ZeroDivisionError) \<and>
   (\<exists>p. progress_percentage (100 - 50) 100 = Inr (Finite p))"
proof -
  have a: "status_code (fst (get_motivational_quote (env_of (Raises ''timed out'')) (query ''50'' ''0''))) = 400 \<and>
   snd (get_motivational_quote (env_of (Raises ''timed out'')) (query ''50'' ''0'')) = [] \<and>
   (progress_percentage 50 0 = Inl ZeroDivisionError)"
    using divisor_positive [of "query ''50'' ''0''" "env_of (Raises ''timed out'')" 50 0]
    by (simp add: Let_def query_def env_of_def parse_50 parse_0)
  have "status_code (fst (get_motivational_quote (env_of (Raises ''timed out'')) (query ''50'' ''100''))) \<noteq> 400"
    by (simp add: get_motivational_quote_def query_def env_of_def truthy_def parse_50 parse_100
          get_quote_from_llm_def prompt_50_100 respond_def progress_50_100)
  then have "\<exists>p. progress_percentage (100 - 50) 100 = Inr (Finite p)"
    using divisor_positive [of "query ''50'' ''100''" "env_of (Raises ''timed out'')" 50 0]
    by (simp add: Let_def query_def env_of_def parse_50 parse_100)
  with a show ?thesis by simp
qed

lemma random_choice_mem: "xs \<noteq> [] \<Longrightarrow> random_choice i xs \<in> set xs"
  by (simp add: random_choice_def)

lemma py_round1_valid:
  assumes "0 \<le> p" "p \<le> 100"
  shows "\<exists>k v. k = round_half_even (p * 10) \<and> \<bar>of_int k / 10 - p\<bar> \<le> 1 / 20 \<and>
               py_round1 (Finite p) = Finite v \<and>
               fl (of_int k / 10) = Finite v \<and> \<bar>v - of_int k / 10\<bar> \<le> 1 / 2 ^ 47"
proof -
  define k where "k = round_half_even (p * 10)"
  have "\<bar>of_int k - p * 10\<bar> \<le> 1 / 2"
    unfolding k_def by (rule round_half_even_error)
  then have e: "\<bar>of_int k / 10 - p\<bar> \<le> 1 / 20" by (simp add: abs_if split: if_splits)
  have "0 \<le> k" unfolding k_def using assms(1) by (intro round_half_even_nonneg) simp
  moreover have "k \<le> 1000"
    unfolding k_def using assms(2) by (intro round_half_even_le) simp
  ultimately have "0 \<le> (of_int k / 10 :: rat)" "(of_int k / 10 :: rat) \<le> 100" by simp_all
  from fl_percent [OF this] obtain v where
    "fl (of_int k / 10) = Finite v" "\<bar>v - of_int k / 10\<bar> \<le> pow2 (- 47)" by blast
  then have "py_round1 (Finite p) = Finite v" "fl (of_int k / 10) = Finite v"
    "\<bar>v - of_int k / 10\<bar> \<le> 1 / 2 ^ 47"
    by (simp_all add: k_def pow2_def)
  with e k_def show ?thesis by blast
qed

text \<open>
  Claim C8, as the code has it: for a validated request the response is 200. When the
  Completion Client reports no error, the body has exactly the fields \<open>quote\<close>,
  \<open>daysLeft\<close>, \<open>totalTarget\<close>, \<open>daysCompleted\<close>, \<open>progressPercentage\<close>, with
  \<open>daysCompleted = totalTarget - daysLeft\<close>; when it reports an error, the body has
  exactly \<open>quote\<close> (one of the five fallback quotes), \<open>daysLeft\<close>, \<open>totalTarget\<close>,
  \<open>progressPercentage\<close>, \<open>warning\<close>, and no \<open>daysCompleted\<close>. On both paths
  \<open>progressPercentage\<close> is computed in floating point: \<open>p\<close> is the float
  \<open>(days_completed / total_target) * 100\<close>, which is within \<open>2 ^ -45\<close> of the exact
  \<open>100 * daysCompleted / totalTarget\<close>; \<open>k / 10\<close> is the tenth nearest to \<open>p\<close> (the
  even one at a midpoint), so within \<open>1 / 20\<close> of \<open>p\<close>; and the field is the float
  \<open>v\<close> nearest to \<open>k / 10\<close>. This is the exact quotient rounded to one decimal place
  except where the exact quotient is at, or within the float error of, a midpoint between
  two tenths.
\<close>


theorem response_fields:
  assumes "map_of args ''daysLeft'' = Some a" "map_of args ''totalTarget'' = Some b"
    and "py_int (max_str_digits env) a = Some d" "py_int (max_str_digits env) b = Some t"
    and "0 \<le> d" "0 < t" "d \<le> t"
  shows "\<exists>p k v q.
     progress_percentage (t - d) t = Inr (Finite p) \<and>
     \<bar>p - 100 * of_int (t - d) / of_int t\<bar> \<le> 1 / 2 ^ 45 \<and>
     k = round_half_even (p * 10) \<and>
     \<bar>of_int k / 10 - p\<bar> \<le> 1 / 20 \<and>
     fl (of_int k / 10) = Finite v \<and>
     \<bar>v - of_int k / 10\<bar> \<le> 1 / 2 ^ 47 \<and>
     q \<in> set fallback_quotes \<and>
     (let resp = fst (get_motivational_quote env args);
          r = fst (get_quote_from_llm (upstream env) d t)
      in status_code resp = 200 \<and>
         (\<not> truthy (snd r) \<longrightarrow>
            payload resp =
              [(''quote'', (case fst r of None \<Rightarrow> PNone | Some x \<Rightarrow> PStr x)),
               (''daysLeft'', PInt d),
               (''totalTarget'', PInt t),
               (''daysCompleted'', PInt (t - d)),
               (''progressPercentage'', PFloat (Finite v))]) \<and>
         (truthy (snd r) \<longrightarrow>
            payload resp =
              [(''quote'', PStr q),
               (''daysLeft'', PInt d),
               (''totalTarget'', PInt t),
               (''progressPercentage'', PFloat (Finite v)),
               (''warning'', PStr ''Used fallback quote due to API issues'')]))"
proof -
  let ?r = "fst (get_quote_from_llm (upstream env) d t)"
  from progress_percentage_valid [of "t - d" t] assms(5,6,7)
  obtain p where p: "progress_percentage (t - d) t = Inr (Finite p)" "0 \<le> p" "p \<le> 100"
    "\<bar>p - 100 * of_int (t - d) / of_int t\<bar> \<le> pow2 (- 45)" by auto
  from py_round1_valid [OF p(2,3)] obtain k v where kv:
    "\<bar>of_int k / 10 - p\<bar> \<le> 1 / 20" "py_round1 (Finite p) = Finite v"
    "fl (of_int k / 10) = Finite v" "\<bar>v - of_int k / 10\<bar> \<le> 1 / 2 ^ 47"
    "k = round_half_even (p * 10)" by blast
  have q: "random_choice (choice_index env) fallback_quotes \<in> set fallback_quotes"
    by (rule random_choice_mem) (simp add: fallback_quotes_def)
  have e: "\<bar>p - 100 * of_int (t - d) / of_int t\<bar> \<le> 1 / 2 ^ 45"
    using p(4) by (simp add: pow2_def)
  have "fst (get_motivational_quote env args) = respond (choice_index env) d t ?r"
    by (simp add: handler_valid [OF assms])
  then have "let resp = fst (get_motivational_quote env args); r = ?r
      in status_code resp = 200 \<and>
         (\<not> truthy (snd r) \<longrightarrow>
            payload resp =
              [(''quote'', (case fst r of None \<Rightarrow> PNone | Some x \<Rightarrow> PStr x)),
               (''daysLeft'', PInt d),
               (''totalTarget'', PInt t),
               (''daysCompleted'', PInt (t - d)),
               (''progressPercentage'', PFloat (Finite v))]) \<and>
         (truthy (snd r) \<longrightarrow>
            payload resp =
              [(''quote'', PStr (random_choice (choice_index env) fallback_quotes)),
               (''daysLeft'', PInt d),
               (''totalTarget'', PInt t),
               (''progressPercentage'', PFloat (Finite v)),
               (''warning'', PStr ''Used fallback quote due to API issues'')])"
    by (simp add: Let_def respond_def p(1) kv(2) del: py_round1.simps)
  with p(1) e kv(1,3,4,5) q show ?thesis by blast
qed

lemma client_keep_building:
  "get_quote_from_llm (upstream (env_of (completion ''Keep building.''))) 50 100 =
     ((Some ''Keep building.'', None),
      [\<lparr> p_days_completed = 50, p_total_target = 100, p_days_left = 50,
         p_progress_percentage = Finite 50, p_phase = ''middle journey'',
         p_tone = ''resilient and persistent'' \<rparr>])"
proof -
  have "extract_quote (JObj [(''choices'',
       JArr [JObj [(''message'', JObj [(''role'', JStr ''assistant''),
                                       (''content'', JStr ''Keep building.'')])]])])
        = Inr ''Keep building.''" by code_simp
  moreover have "finish_quote ''Keep building.'' = (Some ''Keep building.'', None)" by code_simp
  ultimately show ?thesis
    by (simp add: get_quote_from_llm_def prompt_50_100 env_of_def completion_def)
qed

theorem response_fields_witness:
  "payload (fst (get_motivational_quote (env_of (completion ''Keep building.''))
                   (query ''50'' ''100''))) =
     [(''quote'', PStr ''Keep building.''),
      (''daysLeft'', PInt 50),
      (''totalTarget'', PInt 100),
      (''daysCompleted'', PInt 50),
      (''progressPercentage'', PFloat (Finite 50))]"
proof -
  let ?env = "env_of (completion ''Keep building.'')"
  have 1: "map_of (query ''50'' ''100'') ''daysLeft'' = Some ''50''"
    and 2: "map_of (query ''50'' ''100'') ''totalTarget'' = Some ''100''"
    and 3: "py_int (max_str_digits ?env) ''50'' = Some 50"
    and 4: "py_int (max_str_digits ?env) ''100'' = Some 100"
    by (simp_all add: query_def env_of_def parse_50 parse_100)
  from response_fields [OF 1 2 3 4] obtain p k v where
    p: "progress_percentage (100 - 50) 100 = Inr (Finite p)" and
    k: "\<bar>of_int k / 10 - p\<bar> \<le> 1 / 20" and
    v: "fl (of_int k / 10) = Finite v" and
    pay: "payload (fst (get_motivational_quote ?env (query ''50'' ''100''))) =
            [(''quote'', PStr ''Keep building.''), (''daysLeft'', PInt 50),
             (''totalTarget'', PInt 100), (''daysCompleted'', PInt (100 - 50)),
             (''progressPercentage'', PFloat (Finite v))]"
    by (auto simp: Let_def client_keep_building truthy_def)
  from p have "p = 50" by (simp add: progress_50_100)
  with k have "(499 :: rat) < of_int k" "(of_int k :: rat) < 501"
    by linarith+
  then have "499 < k" "k < 501" by simp_all
  then have "k = 500" by simp
  with v have "v = 50" by (simp add: fl_50)
  with pay show ?thesis by simp
qed

lemma parse_1997: "py_int 4300 ''1997'' = Some 1997" by code_simp
lemma parse_2000: "py_int 4300 ''2000'' = Some 2000" by code_simp
lemma parse_big_left: "py_int 4300 ''199699999999999999999'' = Some 199699999999999999999"
  by code_simp
lemma parse_big_target: "py_int 4300 ''200000000000000000000'' = Some 200000000000000000000"
  by code_simp

lemma keep_building: "limit_length (post_process (strip ''Keep building.'')) = ''Keep building.''"
  by code_simp

lemma keep_building_nonempty: "strip ''Keep building.'' \<noteq> []"
  by code_simp

lemma progress_field:
  assumes "py_int 4300 a = Some d" "py_int 4300 b = Some t" "0 \<le> d" "0 < t" "d \<le> t"
    and "progress_percentage (t - d) t = Inr (Finite p)"
  shows "map_of (payload (fst (get_motivational_quote
                   (env_of (completion ''Keep building.'')) (query a b))))
           ''progressPercentage'' = Some (PFloat (py_round1 (Finite p)))"
proof -
  let ?env = "env_of (completion ''Keep building.'')"
  have pr: "\<exists>pr. generate_motivational_prompt d t = Inr pr"
    using assms(6) by (simp add: generate_motivational_prompt_def)
  then obtain pr where "generate_motivational_prompt d t = Inr pr" by blast
  from client_completion [OF this keep_building_nonempty]
  have c: "fst (get_quote_from_llm (upstream ?env) d t) = (Some ''Keep building.'', None)"
    by (simp only: keep_building)
  have "get_motivational_quote ?env (query a b) =
          (respond (choice_index ?env) d t (fst (get_quote_from_llm (upstream ?env) d t)),
           snd (get_quote_from_llm (upstream ?env) d t))"
    using assms(1-5)
    by (intro handler_valid [where a = a and b = b]) (simp_all add: query_def env_of_def)
  then show ?thesis
    by (simp add: c respond_def assms(6) truthy_def del: py_round1.simps)
qed

text \<open>
  Claim C8 as stated fails where the floats matter. For \<open>daysLeft=1997&totalTarget=2000\<close>
  the exact progress is \<open>3 / 20\<close>, which rounds to \<open>0.2\<close>, and for
  \<open>daysLeft=199699999999999999999&totalTarget=200000000000000000000\<close> it is above
  \<open>3 / 20\<close>, so nearer to \<open>0.2\<close> than to \<open>0.1\<close>. In both cases the float progress is
  below \<open>3 / 20\<close> and the response carries the float of \<open>0.1\<close>, not that of \<open>0.2\<close>.
\<close>

theorem progress_not_exact_rounding:
  "map_of (payload (fst (get_motivational_quote (env_of (completion ''Keep building.''))
                          (query ''1997'' ''2000''))))
     ''progressPercentage'' = Some (PFloat (Finite (3602879701896397 / 2 ^ 55))) \<and>
   spec_progress_percentage 1997 2000 = 3 / 20 \<and>
   round_one_decimal (spec_progress_percentage 1997 2000) = 2 / 10 \<and>
   map_of (payload (fst (get_motivational_quote (env_of (completion ''Keep building.''))
                          (query ''199699999999999999999'' ''200000000000000000000''))))
     ''progressPercentage'' = Some (PFloat (Finite (3602879701896397 / 2 ^ 55))) \<and>
   3 / 20 < spec_progress_percentage 199699999999999999999 200000000000000000000 \<and>
   round_one_decimal (spec_progress_percentage 199699999999999999999 200000000000000000000)
     = 2 / 10 \<and>
   fl (1 / 10) = Finite (3602879701896397 / 2 ^ 55) \<and>
   fl (2 / 10) = Finite (3602879701896397 / 2 ^ 54)"
proof -
  have a: "map_of (payload (fst (get_motivational_quote (env_of (completion ''Keep building.''))
                          (query ''1997'' ''2000''))))
     ''progressPercentage'' = Some (PFloat (Finite (3602879701896397 / 2 ^ 55)))"
    using progress_field [OF parse_1997 parse_2000, of "5404319552844595 * pow2 (- 55)"]
    by (simp add: progress_3_2000 round1_progress del: py_round1.simps)
  have b: "map_of (payload (fst (get_motivational_quote (env_of (completion ''Keep building.''))
                          (query ''199699999999999999999'' ''200000000000000000000''))))
     ''progressPercentage'' = Some (PFloat (Finite (3602879701896397 / 2 ^ 55)))"
    using progress_field [OF parse_big_left parse_big_target,
        of "5404319552844595 * pow2 (- 55)"]
    by (simp add: progress_big round1_progress del: py_round1.simps)
  have c: "spec_progress_percentage 1997 2000 = 3 / 20"
    by (simp add: spec_progress_percentage_def)
  have "\<lfloor>3 / 2 :: rat\<rfloor> = 1" by (rule floor_unique) simp_all
  then have d: "round_one_decimal (3 / 20) = 2 / 10"
    by (simp add: round_one_decimal_def round_half_even_def Let_def)
  have e: "spec_progress_percentage 199699999999999999999 200000000000000000000 =
             300000000000000001 / 2000000000000000000"
    by (simp add: spec_progress_percentage_def)
  have "round_half_even (300000000000000001 / 2000000000000000000 * 10) = 2"
    by (rule round_half_even_near) simp
  then have f: "round_one_decimal (300000000000000001 / 2000000000000000000) = 2 / 10"
    by (simp only: round_one_decimal_def)
  have g: "(3 / 20 :: rat) < 300000000000000001 / 2000000000000000000" by simp
  show ?thesis
    by (simp only: a b c d e f g fl_tenth fl_two_tenths)
qed

lemma fallback_for_error_text:
  assumes "map_of args ''daysLeft'' = Some a" "map_of args ''totalTarget'' = Some b"
    and "py_int (max_str_digits env) a = Some d" "py_int (max_str_digits env) b = Some t"
    and "0 \<le> d" "0 < t" "d \<le> t"
    and "snd (fst (get_quote_from_llm (upstream env) d t)) = Some m" "m \<noteq> []"
  shows "\<exists>q v. q \<in> set fallback_quotes \<and>
           fst (get_motivational_quote env args) =
             \<lparr> status_code = 200,
               payload = [(''quote'', PStr q),
                          (''daysLeft'', PInt d),
                          (''totalTarget'', PInt t),
                          (''progressPercentage'', PFloat v),
                          (''warning'', PStr ''Used fallback quote due to API issues'')] \<rparr>"
proof -
  from respond_valid [OF assms(5,6,7), of "choice_index env"
      "fst (get_quote_from_llm (upstream env) d t)"] assms(8,9)
  obtain p where
    "respond (choice_index env) d t (fst (get_quote_from_llm (upstream env) d t)) =
       \<lparr> status_code = 200,
         payload = [(''quote'', PStr (random_choice (choice_index env) fallback_quotes)),
                    (''daysLeft'', PInt d),
                    (''totalTarget'', PInt t),
                    (''progressPercentage'', PFloat (py_round1 (Finite p))),
                    (''warning'', PStr ''Used fallback quote due to API issues'')] \<rparr>"
    by (auto simp: truthy_def)
  moreover have "random_choice (choice_index env) fallback_quotes \<in> set fallback_quotes"
    by (rule random_choice_mem) (simp add: fallback_quotes_def)
  ultimately show ?thesis
    using handler_valid [OF assms(1-7)] by auto
qed

lemma client_error_texts:
  assumes "generate_motivational_prompt d t = Inr prompt"
  shows "up prompt = Responds sc b \<Longrightarrow> sc \<noteq> 200 \<Longrightarrow>
           fst (get_quote_from_llm up d t) = (None, Some (''API Error: '' @ str_int sc))"
    and "up prompt = Raises m \<Longrightarrow> fst (get_quote_from_llm up d t) = (None, Some m)"
    and "up prompt = Responds 200 (JsonBody j) \<Longrightarrow> extract_quote j = Inr [] \<Longrightarrow>
           fst (get_quote_from_llm up d t) = (None, Some ''No quote generated in response'')"
  using assms by (simp_all add: get_quote_from_llm_def finish_quote_def)

text \<open>
  Claim C7 at a failing input: \<open>GET /quote?daysLeft=50&totalTarget=100\<close> while
  \<open>requests.post\<close> raises an exception whose text is empty. The Completion Client
  returns \<open>(None, '')\<close>; line 187 tests the error text for truth, the empty text is
  false, and the handler answers on the success path: 200 with \<open>quote = None\<close>, with
  \<open>daysCompleted\<close> and without \<open>warning\<close>, where the claim promises one of the five
  fallback quotes and a warning. For every error with a non-empty text the fallback is
  used (\<open>fallback_for_error_text\<close>).
\<close>

theorem empty_error_text_skips_fallback:
  "get_motivational_quote (env_of (Raises [])) (query ''50'' ''100'') =
     (\<lparr> status_code = 200,
        payload = [(''quote'', PNone),
                   (''daysLeft'', PInt 50),
                   (''totalTarget'', PInt 100),
                   (''daysCompleted'', PInt 50),
                   (''progressPercentage'', PFloat (Finite 50))] \<rparr>,
      [\<lparr> p_days_completed = 50, p_total_target = 100, p_days_left = 50,
         p_progress_percentage = Finite 50, p_phase = ''middle journey'',
         p_tone = ''resilient and persistent'' \<rparr>])"
proof -
  have c: "get_quote_from_llm (upstream (env_of (Raises []))) 50 100 =
     ((None, Some []),
      [\<lparr> p_days_completed = 50, p_total_target = 100, p_days_left = 50,
         p_progress_percentage = Finite 50, p_phase = ''middle journey'',
         p_tone = ''resilient and persistent'' \<rparr>])"
    by (simp add: get_quote_from_llm_def prompt_50_100 env_of_def)
  have "get_motivational_quote (env_of (Raises [])) (query ''50'' ''100'') =
          (respond (choice_index (env_of (Raises []))) 50 100
             (fst (get_quote_from_llm (upstream (env_of (Raises []))) 50 100)),
           snd (get_quote_from_llm (upstream (env_of (Raises []))) 50 100))"
    by (rule handler_valid [where a = "''50''" and b = "''100''"])
       (simp_all add: query_def env_of_def parse_50 parse_100)
  then show ?thesis
    by (simp add: c respond_def progress_50_100 truthy_def round1_50 del: py_round1.simps)
qed

theorem empty_error_text_skips_fallback_witness:
  "map_of (payload (fst (get_motivational_quote (env_of (Raises [])) (query ''50'' ''100''))))
     ''quote'' = Some PNone \<and>
   map_of (payload (fst (get_motivational_quote (env_of (Raises [])) (query ''50'' ''100''))))
     ''warning'' = None"
  using empty_error_text_skips_fallback by simp

end
